theory Spec2Isabelle
  imports Complex_Main
begin

section \<open>Hybrid tracker (python/trackers/hybrid_tracker.py)\<close>

text \<open>
  Floating-point numbers are modelled as exact reals throughout. Boxes are the four
  numbers \<open>[x1, y1, x2, y2]\<close>; the Kalman state vector \<open>kf.x\<close> is the seven numbers
  \<open>[cx, cy, s, r, vx, vy, vs]\<close>. Both have a fixed length in the source, so they are
  tuples here and every index the source reads is a projection.
\<close>

type_synonym box = "real \<times> real \<times> real \<times> real"

type_synonym vec7 = "real \<times> real \<times> real \<times> real \<times> real \<times> real \<times> real"

text \<open>
  The filterpy \<open>KalmanFilter\<close> object: its state vector and its covariance. The matrices
  \<open>F\<close>, \<open>H\<close>, \<open>R\<close>, \<open>Q\<close> are constants set once in \<open>Track.__init__\<close> and only read by
  the library's \<open>predict\<close> and \<open>update\<close>.
\<close>

record KalmanFilter =
  kf_x :: vec7
  kf_P :: "real list list"

record 'f Track =
  track_id :: nat
  box :: box
  score :: real
  features :: "'f list"
  max_features :: nat
  hits :: nat
  age :: nat
  time_since_update :: nat
  state :: string
  kf :: KalmanFilter

text \<open>
  What the tracker calls but this repository does not define: the ReID model
  (\<open>python.models.reid_model\<close>), numpy's mean, scipy's \<open>linear_sum_assignment\<close> and
  filterpy's \<open>predict\<close> and \<open>update\<close>. They are parameters of the model; \<open>'fr\<close> is the type
  of a video frame and \<open>'f\<close> the type of an appearance embedding.
\<close>

record ('f, 'fr) collaborators =
  extract_features :: "'fr \<Rightarrow> box list \<Rightarrow> 'f list"
  compute_distance :: "'f \<Rightarrow> 'f list \<Rightarrow> real list"
  np_mean :: "'f list \<Rightarrow> 'f"
  linear_sum_assignment :: "real list list \<Rightarrow> (nat \<times> nat) list"
  filter_predict :: "KalmanFilter \<Rightarrow> KalmanFilter"
  filter_update :: "KalmanFilter \<Rightarrow> real \<times> real \<times> real \<times> real \<Rightarrow> KalmanFilter"

datatype error = IndexError | ValueError | ZeroDivisionError

text \<open>\<open>[x1,y1,x2,y2]\<close> to \<open>[cx,cy,s,r]\<close>, the conversion written out in both
  \<open>Track.update_kf\<close> and \<open>Track.update\<close>.\<close>

definition box_to_z :: "box \<Rightarrow> real \<times> real \<times> real \<times> real" where
  "box_to_z b = (case b of (x1, y1, x2, y2) \<Rightarrow>
     (let w = x2 - x1;
          h = y2 - y1;
          x = x1 + w / 2;
          y = y1 + h / 2;
          s = w * h;
          r = w / h
      in (x, y, s, r)))"

text \<open>\<open>self.kf.x[:4] = [x, y, s, r]\<close>: the velocities are left as they are.\<close>

definition update_kf :: "KalmanFilter \<Rightarrow> box \<Rightarrow> KalmanFilter" where
  "update_kf k b = (case (box_to_z b, kf_x k) of
     ((x, y, s, r), (_, _, _, _, vx, vy, vs)) \<Rightarrow> k\<lparr>kf_x := (x, y, s, r, vx, vy, vs)\<rparr>)"

definition kf_get_box :: "KalmanFilter \<Rightarrow> box" where
  "kf_get_box k = (case kf_x k of (x, y, s, r, _, _, _) \<Rightarrow>
     (let w = sqrt (s * r);
          h = s / w
      in (x - w / 2, y - h / 2, x + w / 2, y + h / 2)))"

definition get_box :: "'f Track \<Rightarrow> box" where
  "get_box t = kf_get_box (kf t)"

text \<open>The filter as \<open>Track.__init__\<close> leaves it before \<open>update_kf\<close>: a zero state and
  the covariance \<open>eye(7)\<close> with \<open>P[4:,4:] *= 1000\<close> and then \<open>P *= 10\<close>.\<close>

definition initial_P :: "real list list" where
  "initial_P = map (\<lambda>i. map (\<lambda>j. if i = j then (if i < 4 then 10 else 10000) else 0) [0..<7])
     [0..<(7::nat)]"

definition new_kf :: KalmanFilter where
  "new_kf = \<lparr>kf_x = (0, 0, 0, 0, 0, 0, 0), kf_P = initial_P\<rparr>"

definition Track_init :: "nat \<Rightarrow> box \<Rightarrow> real \<Rightarrow> 'f option \<Rightarrow> 'f Track" where
  "Track_init tid b sc feature =
     \<lparr>track_id = tid, box = b, score = sc,
      features = (case feature of Some f \<Rightarrow> [f] | None \<Rightarrow> []),
      max_features = 100, hits = 1, age = 1, time_since_update = 0,
      state = ''active'', kf = update_kf new_kf b\<rparr>"

text \<open>\<open>Track.predict\<close>: returns the track after the step and the predicted box.\<close>

definition Track_predict :: "('f, 'fr) collaborators \<Rightarrow> 'f Track \<Rightarrow> 'f Track \<times> box" where
  "Track_predict env t =
     (let k = kf t;
          k1 = (case kf_x k of (x, y, s, r, vx, vy, vs) \<Rightarrow>
                  if vs + s \<le> 0 then k\<lparr>kf_x := (x, y, s, r, vx, vy, vs * 0)\<rparr> else k);
          t' = t\<lparr>kf := filter_predict env k1, age := age t + 1,
                 time_since_update := time_since_update t + 1\<rparr>
      in (t', get_box t'))"

text \<open>\<open>Track.update\<close>: the feature is appended and, once the buffer is longer than
  \<open>max_features\<close>, \<open>pop(0)\<close> removes the head.\<close>

definition Track_update :: "('f, 'fr) collaborators \<Rightarrow> 'f Track \<Rightarrow> box \<Rightarrow> real \<Rightarrow> 'f option \<Rightarrow> 'f Track" where
  "Track_update env t b sc feature =
     (let t1 = t\<lparr>hits := hits t + 1, time_since_update := 0, score := sc, box := b,
                 kf := filter_update env (kf t) (box_to_z b)\<rparr>
      in case feature of
           None \<Rightarrow> t1
         | Some f \<Rightarrow>
             (let fs = features t1 @ [f]
              in if length fs > max_features t1 then t1\<lparr>features := tl fs\<rparr>
                 else t1\<lparr>features := fs\<rparr>))"


subsection \<open>HybridTracker\<close>

text \<open>A detection is the six numbers \<open>[x1, y1, x2, y2, score, class_id]\<close>.\<close>

type_synonym detection = "real \<times> real \<times> real \<times> real \<times> real \<times> real"

definition det_box :: "detection \<Rightarrow> box" where
  "det_box d = (case d of (x1, y1, x2, y2, sc, cls) \<Rightarrow> (x1, y1, x2, y2))"

definition det_score :: "detection \<Rightarrow> real" where
  "det_score d = (case d of (x1, y1, x2, y2, sc, cls) \<Rightarrow> sc)"

record 'f HybridTracker =
  tracks :: "'f Track list"
  next_id :: nat
  frame_rate :: int
  max_age :: int
  conf_thresh :: real
  iou_thresh :: real
  reid_thresh :: real

definition HybridTracker_init :: "int \<Rightarrow> 'f HybridTracker" where
  "HybridTracker_init fr =
     \<lparr>tracks = [], next_id = 1, frame_rate = fr, max_age = fr * 2,
      conf_thresh = 5 / 10, iou_thresh = 3 / 10, reid_thresh = 4 / 10\<rparr>"

definition iou :: "box \<Rightarrow> box \<Rightarrow> real" where
  "iou box1 box2 = (case (box1, box2) of ((a0, a1, a2, a3), (b0, b1, b2, b3)) \<Rightarrow>
     (let xx1 = max a0 b0;
          yy1 = max a1 b1;
          xx2 = min a2 b2;
          yy2 = min a3 b3;
          w = max 0 (xx2 - xx1);
          h = max 0 (yy2 - yy1);
          inter = w * h;
          area1 = (a2 - a0) * (a3 - a1);
          area2 = (b2 - b0) * (b3 - b1)
      in inter / (area1 + area2 - inter + 1 / 10 ^ 6)))"

text \<open>\<open>dists[i] = row\<close> on an array with \<open>n\<close> columns: numpy takes a row of length \<open>n\<close>,
  broadcasts a row of length 1 and raises ValueError on any other.\<close>

definition assign_row :: "nat \<Rightarrow> real list \<Rightarrow> error + real list" where
  "assign_row n row =
     (if length row = n then Inr row
      else if length row = 1 then Inr (replicate n (hd row))
      else Inl ValueError)"

fun sequence_err :: "(error + 'a) list \<Rightarrow> error + 'a list" where
  "sequence_err [] = Inr []"
| "sequence_err (Inl e # _) = Inl e"
| "sequence_err (Inr x # rs) = (case sequence_err rs of Inl e \<Rightarrow> Inl e | Inr xs \<Rightarrow> Inr (x # xs))"

text \<open>Stage 1, the cost matrix: one row per track, one column per detection.\<close>

definition reid_dists :: "('f, 'fr) collaborators \<Rightarrow> 'f Track list \<Rightarrow> 'f list \<Rightarrow> nat \<Rightarrow> error + real list list" where
  "reid_dists env trks feats n =
     sequence_err (map (\<lambda>t.
       if length (features t) > 0
       then assign_row n (compute_distance env (np_mean env (features t)) feats)
       else Inr (replicate n 1)) trks)"

text \<open>Stage 1, the loop over the solver's pairs. The state is
  \<open>(matches, unmatched_dets_idx, unmatched_tracks_idx)\<close>; a pair outside the matrix raises
  IndexError at \<open>dists[r, c]\<close>.\<close>

fun stage1_loop :: "real list list \<Rightarrow> real \<Rightarrow> (nat \<times> nat) list \<Rightarrow>
    (nat \<times> nat) list \<times> nat list \<times> nat list \<Rightarrow> error + (nat \<times> nat) list \<times> nat list \<times> nat list" where
  "stage1_loop dists thr [] st = Inr st"
| "stage1_loop dists thr ((r, c) # ps) (matches, ud, ut) =
     (if r < length dists \<and> c < length (dists ! r)
      then stage1_loop dists thr ps
             (if dists ! r ! c < thr
              then (matches @ [(r, c)], remove1 c ud, remove1 r ut)
              else (matches, ud, ut))
      else Inl IndexError)"

text \<open>Stage 2, the loop over the solver's pairs on the IoU cost matrix of the tracks and
  detections left over; only \<open>matches\<close> changes.\<close>

fun stage2_loop :: "real list list \<Rightarrow> real \<Rightarrow> nat list \<Rightarrow> nat list \<Rightarrow> (nat \<times> nat) list \<Rightarrow>
    (nat \<times> nat) list \<Rightarrow> error + (nat \<times> nat) list" where
  "stage2_loop iou_dists thr ut ud [] matches = Inr matches"
| "stage2_loop iou_dists thr ut ud ((r, c) # ps) matches =
     (if r < length ut \<and> c < length ud
      then stage2_loop iou_dists thr ut ud ps
             (if iou_dists ! r ! c < 1 - thr then matches @ [(ut ! r, ud ! c)] else matches)
      else Inl IndexError)"

definition associate :: "('f, 'fr) collaborators \<Rightarrow> 'f HybridTracker \<Rightarrow> 'f Track list \<Rightarrow>
    detection list \<Rightarrow> 'f list \<Rightarrow> error + (nat \<times> nat) list" where
  "associate env tr trks dets feats =
     (let st0 = ([], [0..<length dets], [0..<length trks]);
          stage1 =
            (if length dets > 0 \<and> length trks > 0
             then (case reid_dists env trks feats (length dets) of
                     Inl e \<Rightarrow> Inl e
                   | Inr dists \<Rightarrow>
                       stage1_loop dists (reid_thresh tr) (linear_sum_assignment env dists) st0)
             else Inr st0)
      in case stage1 of
           Inl e \<Rightarrow> Inl e
         | Inr (matches, ud, ut) \<Rightarrow>
             if length ud > 0 \<and> length ut > 0
             then (let iou_dists =
                         map (\<lambda>t_idx. map (\<lambda>d_idx.
                           1 - iou (get_box (trks ! t_idx)) (det_box (dets ! d_idx))) ud) ut
                   in stage2_loop iou_dists (iou_thresh tr) ut ud
                        (linear_sum_assignment env iou_dists) matches)
             else Inr matches)"

text \<open>\<open>features[d_idx] if len(features) > 0 else None\<close>.\<close>

definition feat_at :: "'f list \<Rightarrow> nat \<Rightarrow> error + 'f option" where
  "feat_at feats i =
     (if length feats > 0
      then (if i < length feats then Inr (Some (feats ! i)) else Inl IndexError)
      else Inr None)"

fun apply_matches :: "('f, 'fr) collaborators \<Rightarrow> detection list \<Rightarrow> 'f list \<Rightarrow> (nat \<times> nat) list \<Rightarrow>
    'f Track list \<Rightarrow> error + 'f Track list" where
  "apply_matches env dets feats [] trks = Inr trks"
| "apply_matches env dets feats ((t_idx, d_idx) # ms) trks =
     (if t_idx < length trks \<and> d_idx < length dets
      then (case feat_at feats d_idx of
              Inl e \<Rightarrow> Inl e
            | Inr feat \<Rightarrow>
                apply_matches env dets feats ms
                  (trks[t_idx := Track_update env (trks ! t_idx) (det_box (dets ! d_idx))
                                   (det_score (dets ! d_idx)) feat]))
      else Inl IndexError)"

text \<open>The loop \<open>for i in range(len(dets))\<close> that creates a track for every detection
  index outside \<open>matched_det_indices\<close>; the state is \<open>(self.tracks, self.next_id)\<close>.\<close>

fun create_tracks :: "detection list \<Rightarrow> 'f list \<Rightarrow> nat set \<Rightarrow> nat list \<Rightarrow>
    'f Track list \<times> nat \<Rightarrow> error + 'f Track list \<times> nat" where
  "create_tracks dets feats matched [] st = Inr st"
| "create_tracks dets feats matched (i # is) (trks, nid) =
     (if i \<notin> matched
      then (case feat_at feats i of
              Inl e \<Rightarrow> Inl e
            | Inr feat \<Rightarrow>
                create_tracks dets feats matched is
                  (trks @ [Track_init nid (det_box (dets ! i)) (det_score (dets ! i)) feat],
                   nid + 1))
      else create_tracks dets feats matched is (trks, nid))"

text \<open>Steps 1 to 5 of \<open>HybridTracker.update\<close>: the track list and the id counter as they
  stand just before the line \<open># Remove dead tracks\<close>. The lists \<open>active_tracks\<close> and
  \<open>lost_tracks\<close> of the source are computed and never read, so they do not appear.\<close>

definition update_tracks :: "('f, 'fr) collaborators \<Rightarrow> 'f HybridTracker \<Rightarrow> detection list \<Rightarrow> 'fr \<Rightarrow>
    error + 'f Track list \<times> nat" where
  "update_tracks env tr detections frame =
     (let dets = filter (\<lambda>d. det_score d \<ge> conf_thresh tr) detections;
          feats = (if length dets > 0 then extract_features env frame (map det_box dets) else []);
          trks = map (\<lambda>t. fst (Track_predict env t)) (tracks tr)
      in case associate env tr trks dets feats of
           Inl e \<Rightarrow> Inl e
         | Inr matches \<Rightarrow>
             (case apply_matches env dets feats matches trks of
                Inl e \<Rightarrow> Inl e
              | Inr trks2 \<Rightarrow>
                  create_tracks dets feats (set (map snd matches)) [0..<length dets]
                    (trks2, next_id tr)))"

text \<open>A row of the returned array: \<open>[*box, t.track_id, t.score, 0]\<close>.\<close>

type_synonym result_row = "box \<times> nat \<times> real \<times> nat"

definition result_row :: "'f Track \<Rightarrow> result_row" where
  "result_row t = (get_box t, track_id t, score t, 0)"

definition remove_dead :: "int \<Rightarrow> 'f Track list \<Rightarrow> 'f Track list" where
  "remove_dead m trks = filter (\<lambda>t. int (time_since_update t) < m) trks"

definition active_results :: "'f Track list \<Rightarrow> result_row list" where
  "active_results trks =
     map result_row (filter (\<lambda>t. time_since_update t < 1 \<and> hits t \<ge> 3) trks)"

definition update :: "('f, 'fr) collaborators \<Rightarrow> 'f HybridTracker \<Rightarrow> detection list \<Rightarrow> 'fr \<Rightarrow>
    error + 'f HybridTracker \<times> result_row list" where
  "update env tr detections frame =
     (case update_tracks env tr detections frame of
        Inl e \<Rightarrow> Inl e
      | Inr (trks, nid) \<Rightarrow>
          (let kept = remove_dead (max_age tr) trks
           in Inr (tr\<lparr>tracks := kept, next_id := nid\<rparr>, active_results kept)))"

text \<open>A stand-in for the external libraries, used to run the tracker on concrete frames:
  embeddings are empty vectors at distance 1 from everything (so stage 1 never matches),
  the solver pairs row \<open>i\<close> with column \<open>i\<close>, the filter's prediction is \<open>F x\<close> and its
  correction takes the measurement as it is.\<close>

definition stub_env :: "(real list, unit) collaborators" where
  "stub_env =
     \<lparr>extract_features = (\<lambda>_ boxes. map (\<lambda>_. []) boxes),
      compute_distance = (\<lambda>_ fs. map (\<lambda>_. 1) fs),
      np_mean = (\<lambda>fs. case fs of [] \<Rightarrow> [] | f # _ \<Rightarrow> f),
      linear_sum_assignment =
        (\<lambda>m. zip [0..<length m] [0..<(case m of [] \<Rightarrow> 0 | row # _ \<Rightarrow> length row)]),
      filter_predict = (\<lambda>k. case kf_x k of (x, y, s, r, vx, vy, vs) \<Rightarrow>
                              k\<lparr>kf_x := (x + vx, y + vy, s + vs, r, vx, vy, vs)\<rparr>),
      filter_update = (\<lambda>k z. case (z, kf_x k) of ((x, y, s, r), (_, _, _, _, vx, vy, vs)) \<Rightarrow>
                              k\<lparr>kf_x := (x, y, s, r, vx, vy, vs)\<rparr>)\<rparr>"


text \<open>Any sequence of the operations a track goes through after its construction.\<close>

datatype 'f track_op = Predict | Update box real "'f option"

fun run_op :: "('f, 'fr) collaborators \<Rightarrow> 'f Track \<Rightarrow> 'f track_op \<Rightarrow> 'f Track" where
  "run_op env t Predict = fst (Track_predict env t)"
| "run_op env t (Update b sc f) = Track_update env t b sc f"

definition run_ops :: "('f, 'fr) collaborators \<Rightarrow> 'f Track \<Rightarrow> 'f track_op list \<Rightarrow> 'f Track" where
  "run_ops env t ops = foldl (run_op env) t ops"

section \<open>Configuration, transform and threat grid (python/soccer_analysis_core.py)\<close>

text \<open>The numeric fields of \<open>AnalysisConfig\<close> that the modelled functions read, with the
  defaults of the dataclass and the checks of \<open>__post_init__\<close>.\<close>

record AnalysisConfig =
  confidence_threshold :: real
  min_track_length_seconds :: real
  max_speed_ms :: real
  sprint_threshold_ms :: real
  pressing_distance_m :: real
  pressing_speed_threshold_ms :: real
  max_frame_gap_seconds :: real
  max_distance_jump_m :: real
  field_length_m :: real
  field_width_m :: real
  pass_proximity_threshold_m :: real
  pass_min_distance_m :: real
  pass_max_distance_m :: real
  pass_max_duration_s :: real
  pass_velocity_threshold_ms :: real

definition default_config :: AnalysisConfig where
  "default_config =
     \<lparr>confidence_threshold = 3 / 10, min_track_length_seconds = 1, max_speed_ms = 125 / 10,
      sprint_threshold_ms = 7, pressing_distance_m = 35 / 10,
      pressing_speed_threshold_ms = 25 / 10, max_frame_gap_seconds = 5 / 10,
      max_distance_jump_m = 10, field_length_m = 105, field_width_m = 68,
      pass_proximity_threshold_m = 3, pass_min_distance_m = 2, pass_max_distance_m = 40,
      pass_max_duration_s = 3, pass_velocity_threshold_ms = 15 / 10\<rparr>"

definition post_init :: "AnalysisConfig \<Rightarrow> error + AnalysisConfig" where
  "post_init c =
     (if \<not> (0 < confidence_threshold c \<and> confidence_threshold c \<le> 1) then Inl ValueError
      else if max_speed_ms c \<le> 0 then Inl ValueError
      else if min_track_length_seconds c \<le> 0 then Inl ValueError
      else Inr c)"

subsection \<open>HomographyTransform\<close>

record HomographyTransform =
  matrix :: "real list list option"
  enabled :: bool

text \<open>\<open>np.allclose(matrix, 0)\<close> with numpy's default tolerances: every entry is within
  \<open>atol + rtol * |0| = 1e-8\<close> of zero.\<close>

definition allclose_zero :: "real list list \<Rightarrow> bool" where
  "allclose_zero m = list_all (list_all (\<lambda>a. \<bar>a - 0\<bar> \<le> 1 / 10 ^ 8 + (1 / 10 ^ 5) * \<bar>0\<bar>)) m"

definition is_3x3 :: "real list list \<Rightarrow> bool" where
  "is_3x3 m \<longleftrightarrow> length m = 3 \<and> list_all (\<lambda>row. length row = 3) m"

definition validate_matrix :: "real list list \<Rightarrow> error + unit" where
  "validate_matrix m =
     (if \<not> is_3x3 m then Inl ValueError
      else if allclose_zero m then Inl ValueError
      else Inr ())"

definition HomographyTransform_init :: "real list list option \<Rightarrow> error + HomographyTransform" where
  "HomographyTransform_init m =
     (case m of
        None \<Rightarrow> Inr \<lparr>matrix = None, enabled = False\<rparr>
      | Some a \<Rightarrow>
          (case validate_matrix a of
             Inl e \<Rightarrow> Inl e
           | Inr _ \<Rightarrow> Inr \<lparr>matrix = Some a, enabled = True\<rparr>))"

text \<open>\<open>str.split(',')\<close> and \<open>str.strip()\<close> (on the ASCII whitespace characters).\<close>

fun py_split :: "char \<Rightarrow> string \<Rightarrow> string list" where
  "py_split sep [] = [[]]"
| "py_split sep (c # cs) =
     (if c = sep then [] # py_split sep cs
      else (case py_split sep cs of
              w # ws \<Rightarrow> (c # w) # ws
            | [] \<Rightarrow> [[c]]))"

definition py_isspace :: "char \<Rightarrow> bool" where
  "py_isspace c \<longleftrightarrow> c \<in> set [CHR '' '', CHR 0x09, CHR 0x0A, CHR 0x0B, CHR 0x0C, CHR 0x0D,
                               CHR 0x1C, CHR 0x1D, CHR 0x1E, CHR 0x1F]"

definition py_strip :: "string \<Rightarrow> string" where
  "py_strip s = rev (dropWhile py_isspace (rev (dropWhile py_isspace s)))"

text \<open>The list \<open>[float(x.strip()) for x in matrix_str.split(',')]\<close> and the body of the
  \<open>try\<close> in \<open>from_string\<close>. Python's \<open>float\<close> is the parameter \<open>to_float\<close>, \<open>None\<close>
  where it raises ValueError (which ends the comprehension); \<open>reshape(3, 3)\<close> cuts the
  nine values into three rows.\<close>

definition parse_values :: "(string \<Rightarrow> real option) \<Rightarrow> string \<Rightarrow> real option list" where
  "parse_values to_float matrix_str =
     map (\<lambda>x. to_float (py_strip x)) (py_split (CHR '','') matrix_str)"

definition from_string_body :: "(string \<Rightarrow> real option) \<Rightarrow> string \<Rightarrow> error + HomographyTransform" where
  "from_string_body to_float matrix_str =
     (let parsed = parse_values to_float matrix_str
      in if list_ex (\<lambda>v. v = None) parsed then Inl ValueError
         else (let values = map the parsed
               in if length values \<noteq> 9 then Inl ValueError
                  else HomographyTransform_init
                         (Some [take 3 values, take 3 (drop 3 values), drop 6 values])))"

text \<open>\<open>except Exception: return cls(None)\<close>.\<close>

definition from_string :: "(string \<Rightarrow> real option) \<Rightarrow> string \<Rightarrow> error + HomographyTransform" where
  "from_string to_float matrix_str =
     (case from_string_body to_float matrix_str of
        Inr h \<Rightarrow> Inr h
      | Inl e \<Rightarrow> HomographyTransform_init None)"

text \<open>
  The arithmetic of \<open>transform\<close> runs on IEEE doubles, and the question whether it can
  return an infinity or a NaN is a question about them. A double is modelled as a finite
  real, an infinity or NaN. Within range the real is taken as it is (rounding and signed
  zeros are not modelled); a result whose magnitude reaches \<open>2^1024 - 2^970\<close>, the least
  magnitude that rounds to infinity, overflows. The matrix entries and the coordinates
  are finite.
\<close>

datatype fnum = Finite real | PosInf | NegInf | NaN

definition overflow_threshold :: real where
  "overflow_threshold = 2 ^ 1024 - 2 ^ 970"

definition to_double :: "real \<Rightarrow> fnum" where
  "to_double r =
     (if r \<ge> overflow_threshold then PosInf
      else if r \<le> - overflow_threshold then NegInf
      else Finite r)"

definition fmul :: "real \<Rightarrow> real \<Rightarrow> fnum" where
  "fmul a b = to_double (a * b)"

fun fadd :: "fnum \<Rightarrow> fnum \<Rightarrow> fnum" where
  "fadd (Finite a) (Finite b) = to_double (a + b)"
| "fadd NaN _ = NaN"
| "fadd _ NaN = NaN"
| "fadd PosInf NegInf = NaN"
| "fadd NegInf PosInf = NaN"
| "fadd PosInf _ = PosInf"
| "fadd _ PosInf = PosInf"
| "fadd NegInf _ = NegInf"
| "fadd _ NegInf = NegInf"

text \<open>Division of numpy doubles: a zero divisor gives an infinity or NaN with a warning,
  never an exception.\<close>

fun fdiv :: "fnum \<Rightarrow> fnum \<Rightarrow> fnum" where
  "fdiv NaN _ = NaN"
| "fdiv _ NaN = NaN"
| "fdiv (Finite a) (Finite b) =
     (if b = 0 then (if a = 0 then NaN else if a > 0 then PosInf else NegInf)
      else to_double (a / b))"
| "fdiv (Finite a) _ = Finite 0"
| "fdiv PosInf (Finite b) = (if b \<ge> 0 then PosInf else NegInf)"
| "fdiv NegInf (Finite b) = (if b \<ge> 0 then NegInf else PosInf)"
| "fdiv _ _ = NaN"

text \<open>\<open>abs(v) < eps\<close>: false for an infinity and for NaN.\<close>

definition abs_below :: "fnum \<Rightarrow> real \<Rightarrow> bool" where
  "abs_below v eps = (case v of Finite r \<Rightarrow> \<bar>r\<bar> < eps | _ \<Rightarrow> False)"

text \<open>\<open>np.dot(matrix, v)\<close> for a two-dimensional matrix and a vector: \<open>None\<close> where the
  shapes do not fit and numpy raises; each component is the sum of the products of a
  row, added from left to right.\<close>

definition np_dot :: "real list list \<Rightarrow> real list \<Rightarrow> fnum list option" where
  "np_dot m v =
     (if list_all (\<lambda>row. length row = length v) m
      then Some (map (\<lambda>row. foldl fadd (Finite 0) (map2 fmul row v)) m)
      else None)"

text \<open>\<open>transform\<close>: every exception of the \<open>try\<close> body ends in \<open>return x, y\<close>.\<close>

definition transform :: "HomographyTransform \<Rightarrow> real \<Rightarrow> real \<Rightarrow> fnum \<times> fnum" where
  "transform h x y =
     (if \<not> enabled h then (Finite x, Finite y)
      else (case matrix h of
              None \<Rightarrow> (Finite x, Finite y)
            | Some m \<Rightarrow>
                (case np_dot m [x, y, 1] of
                   None \<Rightarrow> (Finite x, Finite y)
                 | Some v_prime \<Rightarrow>
                     if length v_prime < 3 then (Finite x, Finite y)
                     else if abs_below (v_prime ! 2) (1 / 10 ^ 10) then (Finite x, Finite y)
                     else (fdiv (v_prime ! 0) (v_prime ! 2), fdiv (v_prime ! 1) (v_prime ! 2)))))"

text \<open>The determinant of a matrix given by its three rows; 0 on any other shape.\<close>

definition det3 :: "real list list \<Rightarrow> real" where
  "det3 m = (case m of
       [[a, b, c], [d, e, f], [g, h, i]] \<Rightarrow>
         a * (e * i - f * h) - b * (d * i - f * g) + c * (d * h - e * g)
     | _ \<Rightarrow> 0)"

text \<open>A stand-in for Python's \<open>float\<close> on the decimal integer literals: an optional minus
  sign and one or more digits.\<close>

definition digit_val :: "char \<Rightarrow> nat option" where
  "digit_val c =
     (let n = (of_char c :: nat) in if 48 \<le> n \<and> n \<le> 57 then Some (n - 48) else None)"

fun digits_val :: "nat \<Rightarrow> string \<Rightarrow> nat option" where
  "digits_val acc [] = Some acc"
| "digits_val acc (c # cs) =
     (case digit_val c of None \<Rightarrow> None | Some d \<Rightarrow> digits_val (10 * acc + d) cs)"

definition int_literal :: "string \<Rightarrow> real option" where
  "int_literal s =
     (case s of
        [] \<Rightarrow> None
      | c # cs \<Rightarrow>
          if c = CHR ''-'' then (if cs = [] then None else map_option (\<lambda>n. - real n) (digits_val 0 cs))
          else map_option real (digits_val 0 s))"

subsection \<open>XThreatGrid\<close>

record XThreatGrid =
  field_length :: real
  field_width :: real
  grid :: "real list list"

definition XThreatGrid_init :: "real \<Rightarrow> real \<Rightarrow> XThreatGrid" where
  "XThreatGrid_init fl fw =
     \<lparr>field_length = fl, field_width = fw,
      grid =
        [[0.005, 0.01, 0.015, 0.02, 0.03, 0.04, 0.06, 0.08, 0.12, 0.18, 0.25, 0.35],
         [0.008, 0.015, 0.02, 0.03, 0.05, 0.07, 0.10, 0.15, 0.22, 0.30, 0.40, 0.50],
         [0.010, 0.02, 0.03, 0.05, 0.08, 0.12, 0.18, 0.25, 0.35, 0.45, 0.55, 0.65],
         [0.012, 0.025, 0.04, 0.07, 0.12, 0.18, 0.25, 0.35, 0.45, 0.55, 0.65, 0.75],
         [0.012, 0.025, 0.04, 0.07, 0.12, 0.18, 0.25, 0.35, 0.45, 0.55, 0.65, 0.75],
         [0.010, 0.02, 0.03, 0.05, 0.08, 0.12, 0.18, 0.25, 0.35, 0.45, 0.55, 0.65],
         [0.008, 0.015, 0.02, 0.03, 0.05, 0.07, 0.10, 0.15, 0.22, 0.30, 0.40, 0.50],
         [0.005, 0.01, 0.015, 0.02, 0.03, 0.04, 0.06, 0.08, 0.12, 0.18, 0.25, 0.35]]\<rparr>"

definition np_clip :: "real \<Rightarrow> real \<Rightarrow> real \<Rightarrow> real" where
  "np_clip v lo hi = min (max v lo) hi"

text \<open>\<open>int(v)\<close> truncates toward zero.\<close>

definition py_int :: "real \<Rightarrow> int" where
  "py_int v = (if 0 \<le> v then \<lfloor>v\<rfloor> else \<lceil>v\<rceil>)"

text \<open>An index into one axis of an array: negative indices count from the end, and an
  index outside the axis raises IndexError (\<open>None\<close>).\<close>

definition np_index :: "'a list \<Rightarrow> int \<Rightarrow> 'a option" where
  "np_index xs i =
     (if 0 \<le> i \<and> i < int (length xs) then Some (xs ! nat i)
      else if i < 0 \<and> 0 \<le> int (length xs) + i then Some (xs ! nat (int (length xs) + i))
      else None)"

text \<open>\<open>get_value\<close> on Python floats: a zero cell size raises ZeroDivisionError, and every
  exception of the \<open>try\<close> body ends in \<open>return 0.0\<close>.\<close>

definition get_value :: "XThreatGrid \<Rightarrow> real \<Rightarrow> real \<Rightarrow> real" where
  "get_value g x y =
     (if field_length g / 12 = 0 then 0
      else (let col = py_int (np_clip (x / (field_length g / 12)) 0 11)
            in if field_width g / 8 = 0 then 0
               else (let row = py_int (np_clip (y / (field_width g / 8)) 0 7)
                     in case np_index (grid g) row of
                          None \<Rightarrow> 0
                        | Some r \<Rightarrow> (case np_index r col of None \<Rightarrow> 0 | Some v \<Rightarrow> v))))"


section \<open>Metrics and event detection (python/soccer_analysis_processor.py)\<close>

subsection \<open>Velocity\<close>

text \<open>\<open>np.diff\<close> on a vector and on the rows of an \<open>N x 2\<close> array, and the Euclidean norm
  of a row.\<close>

definition np_diff :: "real list \<Rightarrow> real list" where
  "np_diff xs = map2 (\<lambda>a b. b - a) xs (tl xs)"

definition np_diff_rows :: "(real \<times> real) list \<Rightarrow> (real \<times> real) list" where
  "np_diff_rows ps = map2 (\<lambda>(ax, ay) (bx, by). (bx - ax, by - ay)) ps (tl ps)"

definition norm_row :: "real \<times> real \<Rightarrow> real" where
  "norm_row p = (case p of (dx, dy) \<Rightarrow> sqrt (dx ^ 2 + dy ^ 2))"

text \<open>
  \<open>_compute_velocity\<close>. \<open>1.0 / fps\<close> is evaluated whether or not some time-delta is zero
  and raises ZeroDivisionError for \<open>fps = 0\<close>. The arrays \<open>dist\<close> and \<open>dt\<close> must have one
  length: otherwise the mask \<open>valid_moves\<close> cannot be built (ValueError) or cannot index
  (IndexError, when one of the two has length 1 and broadcasts).
\<close>

definition compute_velocity :: "AnalysisConfig \<Rightarrow> (real \<times> real) list \<Rightarrow> real list \<Rightarrow> real \<Rightarrow>
    error + real list" where
  "compute_velocity cfg coords timestamps fps =
     (if fps = 0 then Inl ZeroDivisionError
      else (let dt = map (\<lambda>d. if d = 0 then 1 / fps else d) (np_diff timestamps);
                dist = map norm_row (np_diff_rows coords)
            in if length dist \<noteq> length dt
               then (if length dist = 1 \<or> length dt = 1 then Inl IndexError else Inl ValueError)
               else (let valid_moves = map2 (\<lambda>d t. d < max_distance_jump_m cfg \<and>
                                                    t < max_frame_gap_seconds cfg) dist dt;
                         velocity = map2 (\<lambda>ok (d, t). if ok then d / t else 0)
                                      valid_moves (zip dist dt);
                         velocity = map (\<lambda>v. np_clip v 0 (max_speed_ms cfg)) velocity
                     in Inr (0 # velocity))))"

text \<open>The velocity of one step as the specification words it: zero when the distance
  exceeds the jump bound or the gap exceeds the gap bound, the clamped quotient otherwise.\<close>

definition spec_step_velocity :: "AnalysisConfig \<Rightarrow> real \<Rightarrow> real \<Rightarrow> real" where
  "spec_step_velocity cfg d t =
     (if d > max_distance_jump_m cfg \<or> t > max_frame_gap_seconds cfg then 0
      else np_clip (d / t) 0 (max_speed_ms cfg))"

subsection \<open>Pass detection\<close>

text \<open>
  A \<open>TrackPoint\<close> as the detectors see it: \<open>_index_by_frame\<close> keeps only the points whose
  smoothed coordinates are set, so they are numbers here. The fields the detectors do not
  read are left out. A potential pass is the dictionary built in \<open>_detect_pass_starts\<close>;
  the fields of \<open>PassEvent\<close> and \<open>PressingEvent\<close> that share a name with a \<open>TrackPoint\<close>
  field carry a prefix.
\<close>

record TrackPoint =
  frame :: int
  timestamp :: real
  xm_smooth :: real
  ym_smooth :: real
  velocity :: real
  xthreat :: real
  team :: string

record PotentialPass =
  passer :: int
  receiver :: int
  pp_team :: string
  start_frame :: int
  start_time :: real
  start_pos :: "real \<times> real"
  start_xthreat :: real
  active :: bool
  min_distance :: real

record PassEvent =
  pass_frame :: int
  pass_timestamp :: real
  passer_id :: int
  receiver_id :: int
  pass_team :: string
  distance :: real
  duration :: real
  pass_type :: string
  success :: bool
  start_position :: "real \<times> real"
  end_position :: "real \<times> real"
  xthreat_delta :: real

text \<open>\<open>round(v, ndigits)\<close>: to the nearest multiple of \<open>10 ^ -ndigits\<close>, a tie to the even
  one.\<close>

definition round_half_even :: "real \<Rightarrow> int" where
  "round_half_even v =
     (let f = \<lfloor>v\<rfloor>;
          d = v - of_int f
      in if d < 1 / 2 then f else if d > 1 / 2 then f + 1 else if even f then f else f + 1)"

definition py_round :: "real \<Rightarrow> nat \<Rightarrow> real" where
  "py_round v ndigits = of_int (round_half_even (v * 10 ^ ndigits)) / 10 ^ ndigits"

definition pass_displacement :: "PotentialPass \<Rightarrow> TrackPoint \<Rightarrow> real" where
  "pass_displacement potential rcv =
     sqrt ((xm_smooth rcv - fst (start_pos potential)) ^ 2 +
           (ym_smooth rcv - snd (start_pos potential)) ^ 2)"

definition validate_pass :: "AnalysisConfig \<Rightarrow> PotentialPass \<Rightarrow> TrackPoint \<Rightarrow> real \<Rightarrow> real \<Rightarrow> bool" where
  "validate_pass cfg potential rcv dist_now dur =
     (let pass_distance = pass_displacement potential rcv
      in if pass_distance < pass_min_distance_m cfg then False
         else if pass_distance > pass_max_distance_m cfg then False
         else if dur \<le> 0 \<or> dur > pass_max_duration_s cfg then False
         else if velocity rcv < 5 / 10 then False
         else True)"

definition classify_pass_type :: "real \<Rightarrow> string" where
  "classify_pass_type d = (if d < 10 then ''short'' else if d < 25 then ''medium'' else ''long'')"

text \<open>\<open>{pid: p for pid, p in players}\<close>: the last entry of a player id wins.\<close>

definition players_dict :: "(int \<times> TrackPoint) list \<Rightarrow> int \<Rightarrow> TrackPoint option" where
  "players_dict players = map_of (rev players)"

text \<open>The body of the loop of \<open>_update_and_complete_passes\<close> for one potential pass: the
  potential as the iteration leaves it and the events it appends (none or one).\<close>

definition complete_one :: "AnalysisConfig \<Rightarrow> (int \<times> TrackPoint) list \<Rightarrow> int \<Rightarrow> PotentialPass \<Rightarrow>
    PotentialPass \<times> PassEvent list" where
  "complete_one cfg players frm potential =
     (if \<not> active potential then (potential, [])
      else (case (players_dict players (passer potential), players_dict players (receiver potential)) of
              (Some psr, Some rcv) \<Rightarrow>
                (let dist = sqrt ((xm_smooth psr - xm_smooth rcv) ^ 2 +
                                  (ym_smooth psr - ym_smooth rcv) ^ 2);
                     p1 = potential\<lparr>min_distance := min (min_distance potential) dist\<rparr>
                 in if dist > pass_proximity_threshold_m cfg
                    then (let dur = timestamp psr - start_time p1
                          in (p1\<lparr>active := False\<rparr>,
                              if validate_pass cfg p1 rcv dist dur
                              then (let pass_distance = pass_displacement p1 rcv
                                    in [\<lparr>pass_frame = frm,
                                         pass_timestamp = py_round (timestamp rcv) 3,
                                         passer_id = passer p1,
                                         receiver_id = receiver p1,
                                         pass_team = pp_team p1,
                                         distance = py_round pass_distance 2,
                                         duration = py_round dur 2,
                                         pass_type = classify_pass_type pass_distance,
                                         success = (velocity rcv > pass_velocity_threshold_ms cfg),
                                         start_position = start_pos p1,
                                         end_position = (xm_smooth rcv, ym_smooth rcv),
                                         xthreat_delta = py_round (xthreat rcv - start_xthreat p1) 3\<rparr>])
                              else []))
                    else if timestamp psr - start_time p1 > pass_max_duration_s cfg
                    then (p1\<lparr>active := False\<rparr>, [])
                    else (p1, []))
            | _ \<Rightarrow> (potential\<lparr>active := False\<rparr>, [])))"

text \<open>\<open>_update_and_complete_passes\<close>: the potentials after the loop and the completed
  passes, in the order of the potentials.\<close>

definition update_and_complete_passes :: "AnalysisConfig \<Rightarrow> PotentialPass list \<Rightarrow>
    (int \<times> TrackPoint) list \<Rightarrow> int \<Rightarrow> PotentialPass list \<times> PassEvent list" where
  "update_and_complete_passes cfg potentials players frm =
     (let rs = map (complete_one cfg players frm) potentials
      in (map fst rs, concat (map snd rs)))"

subsection \<open>Pressing events\<close>

record PressingEvent =
  pr_frame :: int
  pr_timestamp :: real
  defender_id :: int
  attacker_id :: int
  pr_distance :: real
  defender_speed :: real

text \<open>The loop of \<open>_deduplicate_events\<close> over \<open>events[1:]\<close>; \<open>unique\<close> is never empty.\<close>

fun dedup_loop :: "real \<Rightarrow> PressingEvent list \<Rightarrow> PressingEvent list \<Rightarrow> PressingEvent list" where
  "dedup_loop time_window unique [] = unique"
| "dedup_loop time_window unique (event # rest) =
     (let lst = last unique
      in if defender_id event = defender_id lst \<and> attacker_id event = attacker_id lst \<and>
            pr_timestamp event - pr_timestamp lst < time_window
         then dedup_loop time_window unique rest
         else dedup_loop time_window (unique @ [event]) rest)"

text \<open>\<open>list.sort\<close> is stable, as \<open>sort_key\<close> is.\<close>

definition deduplicate_events :: "PressingEvent list \<Rightarrow> real \<Rightarrow> PressingEvent list" where
  "deduplicate_events events time_window =
     (if events = [] then events
      else (let sorted_events = sort_key pr_timestamp events
            in dedup_loop time_window [hd sorted_events] (tl sorted_events)))"

text \<open>The deduplication as the specification words it: walk the events sorted by
  timestamp, remembering the most recently kept one, and drop an event exactly when it
  has that event's defender and attacker and comes strictly less than the window after it.\<close>

fun spec_dedup_from :: "real \<Rightarrow> PressingEvent \<Rightarrow> PressingEvent list \<Rightarrow> PressingEvent list" where
  "spec_dedup_from time_window kept [] = []"
| "spec_dedup_from time_window kept (event # rest) =
     (if (defender_id event, attacker_id event) = (defender_id kept, attacker_id kept) \<and>
         pr_timestamp event < pr_timestamp kept + time_window
      then spec_dedup_from time_window kept rest
      else event # spec_dedup_from time_window event rest)"

definition spec_dedup :: "real \<Rightarrow> PressingEvent list \<Rightarrow> PressingEvent list" where
  "spec_dedup time_window events =
     (case sort_key pr_timestamp events of
        [] \<Rightarrow> []
      | first # rest \<Rightarrow> first # spec_dedup_from time_window first rest)"


section \<open>Auxiliary notions for the statements\<close>

text \<open>Running the tracker over a list of frames, each with its detections.\<close>

fun run_frames :: "('f, 'fr) collaborators \<Rightarrow> 'f HybridTracker \<Rightarrow> (detection list \<times> 'fr) list \<Rightarrow>
    error + 'f HybridTracker" where
  "run_frames env tr [] = Inr tr"
| "run_frames env tr ((detections, frm) # rest) =
     (case update env tr detections frm of
        Inl e \<Rightarrow> Inl e
      | Inr (tr', _) \<Rightarrow> run_frames env tr' rest)"

text \<open>The list \<open>matches\<close> of \<open>HybridTracker.update\<close> as it stands at step 5: the pairs
  (track index, detection index) that the two association stages accepted in this
  frame. A track is updated in a frame exactly when its index is the first component of
  one of these pairs.\<close>

definition update_matches :: "('f, 'fr) collaborators \<Rightarrow> 'f HybridTracker \<Rightarrow> detection list \<Rightarrow> 'fr \<Rightarrow>
    error + (nat \<times> nat) list" where
  "update_matches env tr detections frm =
     (let dets = filter (\<lambda>d. det_score d \<ge> conf_thresh tr) detections;
          feats = (if length dets > 0 then extract_features env frm (map det_box dets) else []);
          trks = map (\<lambda>t. fst (Track_predict env t)) (tracks tr)
      in associate env tr trks dets feats)"

text \<open>Track ids are pairwise different and below the id counter: true of a new tracker
  and kept by \<open>update\<close>.\<close>

definition ids_fresh :: "'f HybridTracker \<Rightarrow> bool" where
  "ids_fresh tr \<longleftrightarrow>
     distinct (map track_id (tracks tr)) \<and> list_all (\<lambda>t. track_id t < next_id tr) (tracks tr)"

text \<open>The feature buffer never holds more than a hundred embeddings.\<close>

definition buffer_ok :: "'f Track \<Rightarrow> bool" where
  "buffer_ok t \<longleftrightarrow> max_features t = 100 \<and> length (features t) \<le> 100"

text \<open>Concrete frames for the stand-in libraries: one player standing in the box
  \<open>[0, 0, 2, 2]\<close>, a second one far away, and the track of the first player after one
  frame, after a missed frame and after two matched frames.\<close>

definition demo_det :: detection where
  "demo_det = (0, 0, 2, 2, 9 / 10, 0)"

definition far_det :: detection where
  "far_det = (10, 10, 12, 12, 9 / 10, 0)"

definition fresh_track :: "real list Track" where
  "fresh_track = Track_init 1 (0, 0, 2, 2) (9 / 10) (Some [])"

definition lost_track :: "real list Track" where
  "lost_track = fresh_track\<lparr>age := 2, time_since_update := 1\<rparr>"

definition lost_tracker :: "real list HybridTracker" where
  "lost_tracker = (HybridTracker_init 1)\<lparr>tracks := [lost_track], next_id := 2\<rparr>"

definition seen_twice :: "real list Track" where
  "seen_twice = fresh_track\<lparr>features := [[], []], hits := 2, age := 2\<rparr>"

definition seen_twice_tracker :: "real list HybridTracker" where
  "seen_twice_tracker = (HybridTracker_init 30)\<lparr>tracks := [seen_twice], next_id := 2\<rparr>"

definition seen_thrice :: "real list Track" where
  "seen_thrice = fresh_track\<lparr>features := [[], [], []], hits := 3, age := 3\<rparr>"

definition far_track :: "real list Track" where
  "far_track = Track_init 2 (10, 10, 12, 12) (9 / 10) (Some [])"

text \<open>The three rows that \<open>reshape(3, 3)\<close> makes of the parsed values of a string.\<close>

definition parsed_matrix :: "(string \<Rightarrow> real option) \<Rightarrow> string \<Rightarrow> real list list" where
  "parsed_matrix to_float s =
     (let values = map the (parse_values to_float s)
      in [take 3 values, take 3 (drop 3 values), drop 6 values])"

text \<open>A potential pass that started at the origin at time 0, the passer six metres
  away one second later, and the receiver \<open>x\<close> metres from the origin, moving.\<close>

definition demo_potential :: PotentialPass where
  "demo_potential =
     \<lparr>passer = 1, receiver = 2, pp_team = ''A'', start_frame = 0, start_time = 0,
      start_pos = (0, 0), start_xthreat = 0, active = True, min_distance = 1\<rparr>"

definition passer_point :: TrackPoint where
  "passer_point =
     \<lparr>frame = 25, timestamp = 1, xm_smooth = 6, ym_smooth = 0, velocity = 0, xthreat = 0,
      team = ''A''\<rparr>"

definition receiver_point :: "real \<Rightarrow> TrackPoint" where
  "receiver_point x =
     \<lparr>frame = 25, timestamp = 1, xm_smooth = x, ym_smooth = 0, velocity = 1, xthreat = 0,
      team = ''A''\<rparr>"

definition demo_players :: "real \<Rightarrow> (int \<times> TrackPoint) list" where
  "demo_players x = [(1, passer_point), (2, receiver_point x)]"

text \<open>A pressing event of defender 7 on attacker 9 at a given time.\<close>

definition press_at :: "real \<Rightarrow> PressingEvent" where
  "press_at ts =
     \<lparr>pr_frame = 0, pr_timestamp = ts, defender_id = 7, attacker_id = 9, pr_distance = 2,
      defender_speed = 3\<rparr>"

text \<open>What the tracker relies on in the external libraries: one embedding per box, one
  distance per embedding, and on a cost matrix with \<open>n\<close> columns an assignment whose
  index pairs lie inside the matrix.\<close>

definition respects_contract :: "('f, 'fr) collaborators \<Rightarrow> bool" where
  "respects_contract env \<longleftrightarrow>
     (\<forall>frm boxes. length (extract_features env frm boxes) = length boxes) \<and>
     (\<forall>f fs. length (compute_distance env f fs) = length fs) \<and>
     (\<forall>m n. (\<forall>row \<in> set m. length row = n) \<longrightarrow>
        (\<forall>p \<in> set (linear_sum_assignment env m). fst p < length m \<and> snd p < n))"

text \<open>Every pair of a match list indexes a track and a detection.\<close>

definition in_range :: "nat \<Rightarrow> nat \<Rightarrow> (nat \<times> nat) list \<Rightarrow> bool" where
  "in_range nt nd ms \<longleftrightarrow> (\<forall>m \<in> set ms. fst m < nt \<and> snd m < nd)"

text \<open>A tracker holding the confirmed track of the standing player.\<close>

definition seen_thrice_tracker :: "real list HybridTracker" where
  "seen_thrice_tracker = (HybridTracker_init 30)\<lparr>tracks := [seen_thrice], next_id := 2\<rparr>"



section \<open>Properties of the tracker\<close>

subsection \<open>Fields through the track operations\<close>

lemma predict_fields:
  "track_id (fst (Track_predict env t)) = track_id t"
  "hits (fst (Track_predict env t)) = hits t"
  "time_since_update (fst (Track_predict env t)) = time_since_update t + 1"
  by (simp_all add: Track_predict_def Let_def)

lemma update_fields:
  "track_id (Track_update env t b sc f) = track_id t"
  "hits (Track_update env t b sc f) = hits t + 1"
  "time_since_update (Track_update env t b sc f) = 0"
  by (simp_all add: Track_update_def Let_def split: option.splits)

lemma init_fields:
  "track_id (Track_init n b sc f) = n"
  "hits (Track_init n b sc f) = 1"
  "time_since_update (Track_init n b sc f) = 0"
  by (simp_all add: Track_init_def)

lemma apply_matches_ids:
  "apply_matches env dets feats ms trks = Inr trks' \<Longrightarrow> map track_id trks' = map track_id trks"
proof (induction ms arbitrary: trks)
  case Nil
  then show ?case by simp
next
  case (Cons m ms)
  obtain ti di where m: "m = (ti, di)" by (cases m)
  from Cons.prems m obtain ft where
    rng: "ti < length trks" and
    rec: "apply_matches env dets feats ms
            (trks[ti := Track_update env (trks ! ti) (det_box (dets ! di)) (det_score (dets ! di)) ft]) = Inr trks'"
    by (auto split: if_splits sum.splits)
  from Cons.IH[OF rec] have "map track_id trks' = (map track_id trks)[ti := track_id (trks ! ti)]"
    by (simp add: map_update update_fields)
  then show ?case using rng by (simp add: list_update_same_conv)
qed

text \<open>What the loop over \<open>matches\<close> does to the track at one index: a hit per pair that
  names it, and a reset of the time since update if there is such a pair.\<close>

lemma apply_matches_nth:
  "apply_matches env dets feats ms trks = Inr trks' \<Longrightarrow> i < length trks \<Longrightarrow>
     length trks' = length trks
     \<and> hits (trks' ! i) = hits (trks ! i) + count_list (map fst ms) i
     \<and> (i \<notin> fst ` set ms \<longrightarrow> trks' ! i = trks ! i)
     \<and> (i \<in> fst ` set ms \<longrightarrow> time_since_update (trks' ! i) = 0)"
proof (induction ms arbitrary: trks)
  case Nil
  then show ?case by simp
next
  case (Cons m ms)
  obtain ti di where m: "m = (ti, di)" by (cases m)
  from Cons.prems(1) m obtain ft where
    rng: "ti < length trks" and
    rec: "apply_matches env dets feats ms
            (trks[ti := Track_update env (trks ! ti) (det_box (dets ! di)) (det_score (dets ! di)) ft]) = Inr trks'"
    by (auto split: if_splits sum.splits)
  let ?u = "Track_update env (trks ! ti) (det_box (dets ! di)) (det_score (dets ! di)) ft"
  let ?t1 = "trks[ti := ?u]"
  have i1: "i < length ?t1" using Cons.prems(2) by simp
  note ih = Cons.IH[OF rec i1]
  show ?case
  proof (cases "i = ti")
    case True
    have at: "?t1 ! i = ?u" using True rng by simp
    have hu: "hits ?u = hits (trks ! i) + 1" "time_since_update ?u = 0"
      using True by (simp_all add: update_fields)
    show ?thesis using ih at hu True m by (cases "i \<in> fst ` set ms") auto
  next
    case False
    have at: "?t1 ! i = trks ! i" using False by simp
    show ?thesis using ih at False m by auto
  qed
qed

lemma create_tracks_append:
  "create_tracks dets feats matched ixs (trks, nid) = Inr (trks', nid') \<Longrightarrow>
     \<exists>news. trks' = trks @ news \<and> map track_id news = [nid..<nid'] \<and> nid \<le> nid' \<and>
            list_all (\<lambda>t. hits t = 1 \<and> time_since_update t = 0) news"
proof (induction ixs arbitrary: trks nid)
  case Nil
  then show ?case by simp
next
  case (Cons i ixs)
  show ?case
  proof (cases "i \<in> matched")
    case True
    with Cons.prems have "create_tracks dets feats matched ixs (trks, nid) = Inr (trks', nid')"
      by simp
    from Cons.IH[OF this] show ?thesis .
  next
    case False
    let ?mk = "\<lambda>ft. Track_init nid (det_box (dets ! i)) (det_score (dets ! i)) ft"
    from False Cons.prems obtain ft where
      rec: "create_tracks dets feats matched ixs (trks @ [?mk ft], nid + 1) = Inr (trks', nid')"
      by (auto split: sum.splits)
    from Cons.IH[OF rec] obtain news where
      n: "trks' = (trks @ [?mk ft]) @ news"
         "map track_id news = [nid + 1..<nid']" "nid + 1 \<le> nid'"
         "list_all (\<lambda>t. hits t = 1 \<and> time_since_update t = 0) news"
      by blast
    let ?new = "?mk ft # news"
    have "trks' = trks @ ?new" using n(1) by simp
    moreover have "map track_id ?new = [nid..<nid']"
      using n(2,3) by (simp add: init_fields upt_conv_Cons)
    moreover have "list_all (\<lambda>t. hits t = 1 \<and> time_since_update t = 0) ?new"
      using n(4) by (simp add: init_fields)
    ultimately show ?thesis using n(3) by (intro exI[of _ ?new]) simp
  qed
qed

text \<open>Before the removal step the list is the old tracks, in place and with their ids,
  followed by the tracks created in this frame, numbered from the old id counter.\<close>

lemma update_tracks_shape:
  assumes "update_tracks env tr detections frm = Inr (trks, nid)"
  shows "\<exists>olds news. trks = olds @ news \<and> map track_id olds = map track_id (tracks tr) \<and>
           map track_id news = [next_id tr..<nid] \<and> next_id tr \<le> nid \<and>
           list_all (\<lambda>t. hits t = 1 \<and> time_since_update t = 0) news"
proof -
  let ?dets = "filter (\<lambda>d. det_score d \<ge> conf_thresh tr) detections"
  let ?feats = "if length ?dets > 0 then extract_features env frm (map det_box ?dets) else []"
  let ?trks = "map (\<lambda>t. fst (Track_predict env t)) (tracks tr)"
  from assms obtain ms trks2 where
    am: "apply_matches env ?dets ?feats ms ?trks = Inr trks2" and
    ct: "create_tracks ?dets ?feats (set (map snd ms)) [0..<length ?dets] (trks2, next_id tr)
           = Inr (trks, nid)"
    unfolding update_tracks_def Let_def by (auto split: sum.splits)
  from apply_matches_ids[OF am] have ids: "map track_id trks2 = map track_id (tracks tr)"
    by (simp add: predict_fields comp_def)
  from create_tracks_append[OF ct] ids show ?thesis by blast
qed

text \<open>The old tracks just before the removal step, in terms of the matches of this
  frame: \<open>predict\<close> has aged every track by one, and only a match resets the age.\<close>

lemma update_tracks_old_tracks:
  assumes "update_matches env tr detections frm = Inr ms"
    and "update_tracks env tr detections frm = Inr (trks, nid)"
    and "i < length (tracks tr)"
  shows "i < length trks
       \<and> track_id (trks ! i) = track_id (tracks tr ! i)
       \<and> hits (trks ! i) = hits (tracks tr ! i) + count_list (map fst ms) i
       \<and> (i \<in> fst ` set ms \<longrightarrow> time_since_update (trks ! i) = 0)
       \<and> (i \<notin> fst ` set ms \<longrightarrow>
            time_since_update (trks ! i) = time_since_update (tracks tr ! i) + 1)"
proof -
  let ?dets = "filter (\<lambda>d. det_score d \<ge> conf_thresh tr) detections"
  let ?feats = "if length ?dets > 0 then extract_features env frm (map det_box ?dets) else []"
  let ?trks = "map (\<lambda>t. fst (Track_predict env t)) (tracks tr)"
  have as: "associate env tr ?trks ?dets ?feats = Inr ms"
    using assms(1) unfolding update_matches_def Let_def by simp
  from assms(2) as obtain trks2 where
    am: "apply_matches env ?dets ?feats ms ?trks = Inr trks2" and
    ct: "create_tracks ?dets ?feats (set (map snd ms)) [0..<length ?dets] (trks2, next_id tr)
           = Inr (trks, nid)"
    unfolding update_tracks_def Let_def by (auto split: sum.splits)
  have i: "i < length ?trks" using assms(3) by simp
  from apply_matches_nth[OF am i] have
    l2: "length trks2 = length (tracks tr)" and
    h2: "hits (trks2 ! i) = hits (?trks ! i) + count_list (map fst ms) i" and
    n2: "i \<notin> fst ` set ms \<longrightarrow> trks2 ! i = ?trks ! i" and
    m2: "i \<in> fst ` set ms \<longrightarrow> time_since_update (trks2 ! i) = 0"
    by simp_all
  from create_tracks_append[OF ct] obtain news where "trks = trks2 @ news" by blast
  then have at: "trks ! i = trks2 ! i" "i < length trks"
    using l2 assms(3) by (simp_all add: nth_append)
  have ids: "map track_id trks2 = map track_id (tracks tr)"
    using apply_matches_ids[OF am] by (simp add: predict_fields comp_def)
  have "track_id (trks2 ! i) = track_id (tracks tr ! i)"
    using ids l2 assms(3) by (metis nth_map)
  moreover have "?trks ! i = fst (Track_predict env (tracks tr ! i))"
    using assms(3) by simp
  ultimately show ?thesis
    using at h2 n2 m2 by (auto simp add: predict_fields)
qed

lemma update_result:
  "update_tracks env tr detections frm = Inr (trks, nid) \<Longrightarrow>
   update env tr detections frm =
     Inr (tr\<lparr>tracks := remove_dead (max_age tr) trks, next_id := nid\<rparr>,
          active_results (remove_dead (max_age tr) trks))"
  by (simp add: update_def Let_def)

subsection \<open>The call returns\<close>

text \<open>With libraries that respect their contracts no index of \<open>update\<close> is out of range
  and no row has the wrong length, so the call returns; the stand-in libraries do.\<close>

lemma sequence_err_all_Inr:
  "\<forall>r \<in> set rs. \<exists>x. r = Inr x \<and> P x \<Longrightarrow>
     \<exists>xs. sequence_err rs = Inr xs \<and> length xs = length rs \<and> (\<forall>x \<in> set xs. P x)"
proof (induction rs)
  case Nil
  then show ?case by simp
next
  case (Cons r rs)
  then obtain x where x: "r = Inr x" "P x" by auto
  from Cons obtain xs where "sequence_err rs = Inr xs" "length xs = length rs" "\<forall>x \<in> set xs. P x"
    by auto
  with x show ?case by simp
qed

lemma reid_dists_returns:
  assumes "respects_contract env" "length feats = n"
  shows "\<exists>dists. reid_dists env trks feats n = Inr dists \<and> length dists = length trks
           \<and> (\<forall>row \<in> set dists. length row = n)"
proof -
  have "\<forall>r \<in> set (map (\<lambda>t.
       if length (features t) > 0
       then assign_row n (compute_distance env (np_mean env (features t)) feats)
       else Inr (replicate n 1)) trks). \<exists>x. r = Inr x \<and> length x = n"
    using assms by (auto simp add: respects_contract_def assign_row_def)
  from sequence_err_all_Inr[OF this] show ?thesis
    by (auto simp add: reid_dists_def)
qed

lemma stage1_loop_returns:
  assumes "\<forall>p \<in> set ps. fst p < length dists \<and> snd p < nd"
    and "length dists = nt" and "\<forall>row \<in> set dists. length row = nd"
    and "in_range nt nd ms" and "\<forall>i \<in> set ud. i < nd" and "\<forall>i \<in> set ut. i < nt"
  shows "\<exists>ms' ud' ut'. stage1_loop dists thr ps (ms, ud, ut) = Inr (ms', ud', ut')
           \<and> in_range nt nd ms' \<and> (\<forall>i \<in> set ud'. i < nd) \<and> (\<forall>i \<in> set ut'. i < nt)"
  using assms
proof (induction ps arbitrary: ms ud ut)
  case Nil
  then show ?case by simp
next
  case (Cons p ps)
  obtain r c where p: "p = (r, c)" by (cases p)
  from Cons.prems(1) p have rnt': "r < length dists" and cnd: "c < nd" by auto
  then have rnt: "r < nt" and rc: "r < length dists" "c < length (dists ! r)"
    using Cons.prems(2,3) by auto
  have rest: "\<forall>p \<in> set ps. fst p < length dists \<and> snd p < nd"
    using Cons.prems(1) by simp
  show ?case
  proof (cases "dists ! r ! c < thr")
    case True
    have a: "in_range nt nd (ms @ [(r, c)])"
      using Cons.prems(4) cnd rnt by (auto simp add: in_range_def)
    have b: "\<forall>i \<in> set (remove1 c ud). i < nd" using Cons.prems(5) by (auto dest: notin_set_remove1)
    have c: "\<forall>i \<in> set (remove1 r ut). i < nt" using Cons.prems(6) by (auto dest: notin_set_remove1)
    from Cons.IH[OF rest Cons.prems(2,3) a b c] show ?thesis
      using True rc p by simp
  next
    case False
    from Cons.IH[OF rest Cons.prems(2,3,4,5,6)] show ?thesis
      using False rc p by simp
  qed
qed

lemma stage2_loop_returns:
  assumes "\<forall>p \<in> set ps. fst p < length ut \<and> snd p < length ud"
    and "in_range nt nd ms" and "\<forall>i \<in> set ud. i < nd" and "\<forall>i \<in> set ut. i < nt"
  shows "\<exists>ms'. stage2_loop iou_dists thr ut ud ps ms = Inr ms' \<and> in_range nt nd ms'"
  using assms
proof (induction ps arbitrary: ms)
  case Nil
  then show ?case by simp
next
  case (Cons p ps)
  obtain r c where p: "p = (r, c)" by (cases p)
  from Cons.prems(1) p have rc: "r < length ut" "c < length ud" by auto
  have rest: "\<forall>p \<in> set ps. fst p < length ut \<and> snd p < length ud"
    using Cons.prems(1) by simp
  have a: "in_range nt nd (ms @ [(ut ! r, ud ! c)])"
    using Cons.prems(2,3,4) rc by (auto simp add: in_range_def)
  show ?case
    using Cons.IH[OF rest a Cons.prems(3,4)] Cons.IH[OF rest Cons.prems(2,3,4)] rc p
    by (cases "iou_dists ! r ! c < 1 - thr") simp_all
qed

lemma associate_returns:
  assumes "respects_contract env" "length feats = length dets"
  shows "\<exists>ms. associate env tr trks dets feats = Inr ms \<and> in_range (length trks) (length dets) ms"
proof -
  let ?nt = "length trks" and ?nd = "length dets"
  let ?st0 = "([] :: (nat \<times> nat) list, [0..<?nd], [0..<?nt])"
  have s1: "\<exists>ms ud ut.
      (if ?nd > 0 \<and> ?nt > 0
       then (case reid_dists env trks feats ?nd of
               Inl e \<Rightarrow> Inl e
             | Inr dists \<Rightarrow> stage1_loop dists (reid_thresh tr) (linear_sum_assignment env dists) ?st0)
       else Inr ?st0) = Inr (ms, ud, ut)
      \<and> in_range ?nt ?nd ms \<and> (\<forall>i \<in> set ud. i < ?nd) \<and> (\<forall>i \<in> set ut. i < ?nt)"
  proof (cases "?nd > 0 \<and> ?nt > 0")
    case True
    from reid_dists_returns[OF assms(1,2), of trks] obtain dists where
      d: "reid_dists env trks feats ?nd = Inr dists" "length dists = ?nt"
         "\<forall>row \<in> set dists. length row = ?nd"
      by blast
    have pr: "\<forall>p \<in> set (linear_sum_assignment env dists).
                fst p < length dists \<and> snd p < ?nd"
      using assms(1) d(3) unfolding respects_contract_def by blast
    have "\<exists>ms' ud' ut'. stage1_loop dists (reid_thresh tr) (linear_sum_assignment env dists) ?st0
             = Inr (ms', ud', ut')
           \<and> in_range ?nt ?nd ms' \<and> (\<forall>i \<in> set ud'. i < ?nd) \<and> (\<forall>i \<in> set ut'. i < ?nt)"
      by (rule stage1_loop_returns[OF pr d(2,3)]) (simp_all add: in_range_def)
    then show ?thesis using True d(1) by simp
  next
    case False
    then show ?thesis by (auto simp add: in_range_def)
  qed
  then obtain ms ud ut where
    st: "(if ?nd > 0 \<and> ?nt > 0
       then (case reid_dists env trks feats ?nd of
               Inl e \<Rightarrow> Inl e
             | Inr dists \<Rightarrow> stage1_loop dists (reid_thresh tr) (linear_sum_assignment env dists) ?st0)
       else Inr ?st0) = Inr (ms, ud, ut)"
    and inv: "in_range ?nt ?nd ms" "\<forall>i \<in> set ud. i < ?nd" "\<forall>i \<in> set ut. i < ?nt"
    by blast
  let ?iou = "map (\<lambda>t_idx. map (\<lambda>d_idx.
                 1 - iou (get_box (trks ! t_idx)) (det_box (dets ! d_idx))) ud) ut"
  have pr2: "\<forall>p \<in> set (linear_sum_assignment env ?iou). fst p < length ut \<and> snd p < length ud"
  proof -
    have rows: "\<forall>row \<in> set ?iou. length row = length ud" by auto
    from assms(1) rows
    have "\<forall>p \<in> set (linear_sum_assignment env ?iou). fst p < length ?iou \<and> snd p < length ud"
      unfolding respects_contract_def by blast
    then show ?thesis by simp
  qed
  from stage2_loop_returns[OF pr2 inv, of ?iou "iou_thresh tr"] obtain ms' where
    "stage2_loop ?iou (iou_thresh tr) ut ud (linear_sum_assignment env ?iou) ms = Inr ms'"
    "in_range ?nt ?nd ms'"
    by blast
  with st inv(1) show ?thesis
    unfolding associate_def Let_def by (cases "length ud > 0 \<and> length ut > 0") auto
qed

lemma feat_at_returns: "length feats = nd \<Longrightarrow> i < nd \<Longrightarrow> \<exists>ft. feat_at feats i = Inr ft"
  by (simp add: feat_at_def)

lemma apply_matches_returns:
  assumes "in_range (length trks) (length dets) ms" "length feats = length dets"
  shows "\<exists>trks'. apply_matches env dets feats ms trks = Inr trks'"
  using assms
proof (induction ms arbitrary: trks)
  case Nil
  then show ?case by simp
next
  case (Cons m ms)
  obtain ti di where m: "m = (ti, di)" by (cases m)
  from Cons.prems(1) m have rng: "ti < length trks" "di < length dets"
    and rest: "in_range (length trks) (length dets) ms"
    by (auto simp add: in_range_def)
  from feat_at_returns[OF Cons.prems(2) rng(2)] obtain ft where ft: "feat_at feats di = Inr ft" ..
  let ?trks = "trks[ti := Track_update env (trks ! ti) (det_box (dets ! di)) (det_score (dets ! di)) ft]"
  have "in_range (length ?trks) (length dets) ms" using rest by simp
  from Cons.IH[OF this Cons.prems(2)] show ?case using m rng ft by simp
qed

lemma create_tracks_returns:
  assumes "\<forall>i \<in> set ixs. i < length dets" "length feats = length dets"
  shows "\<exists>st'. create_tracks dets feats matched ixs st = Inr st'"
  using assms
proof (induction ixs arbitrary: st)
  case Nil
  then show ?case by simp
next
  case (Cons i ixs)
  obtain trks nid where st: "st = (trks, nid)" by (cases st)
  from Cons.prems have i: "i < length dets" and rest: "\<forall>i \<in> set ixs. i < length dets" by simp_all
  from feat_at_returns[OF Cons.prems(2) i] obtain ft where ft: "feat_at feats i = Inr ft" ..
  show ?case
    using Cons.IH[OF rest Cons.prems(2)] st ft by (cases "i \<in> matched") simp_all
qed

lemma update_returns:
  assumes "respects_contract env"
  shows "\<exists>tr' ret. update env tr detections frm = Inr (tr', ret)"
proof -
  let ?dets = "filter (\<lambda>d. det_score d \<ge> conf_thresh tr) detections"
  let ?feats = "if length ?dets > 0 then extract_features env frm (map det_box ?dets) else []"
  let ?trks = "map (\<lambda>t. fst (Track_predict env t)) (tracks tr)"
  have lf: "length ?feats = length ?dets"
    using assms by (simp add: respects_contract_def)
  from associate_returns[OF assms lf, of tr ?trks] obtain ms where
    ms: "associate env tr ?trks ?dets ?feats = Inr ms" "in_range (length ?trks) (length ?dets) ms"
    by blast
  from apply_matches_returns[OF ms(2) lf, of env] obtain trks2 where
    t2: "apply_matches env ?dets ?feats ms ?trks = Inr trks2" ..
  have "\<forall>i \<in> set [0..<length ?dets]. i < length ?dets" by simp
  from create_tracks_returns[OF this lf, of "set (map snd ms)" "(trks2, next_id tr)"] obtain st' where
    "create_tracks ?dets ?feats (set (map snd ms)) [0..<length ?dets] (trks2, next_id tr) = Inr st'" ..
  with ms(1) t2 have "update_tracks env tr detections frm = Inr st'"
    unfolding update_tracks_def Let_def by simp
  then show ?thesis by (cases st') (simp add: update_def Let_def)
qed

lemma stub_assignment_in_range:
  assumes "\<forall>row \<in> set m. length row = n"
    and "p \<in> set (zip [0..<length m] [0..<(case m of [] \<Rightarrow> 0 | row # _ \<Rightarrow> length row)])"
  shows "fst p < length m \<and> snd p < n"
proof -
  obtain a b where p: "p = (a, b)" by (cases p)
  from assms(2) p have a: "a \<in> set [0..<length m]"
    and b: "b \<in> set [0..<(case m of [] \<Rightarrow> 0 | row # _ \<Rightarrow> length row)]"
    by (auto dest: set_zip_leftD set_zip_rightD)
  from a have "a < length m" by simp
  moreover from b assms(1) have "b < n" by (cases m) auto
  ultimately show ?thesis using p by simp
qed

lemma stub_contract: "respects_contract stub_env"
  unfolding respects_contract_def
  by (simp add: stub_env_def) (use stub_assignment_in_range in blast)

subsection \<open>Track ids\<close>

lemma update_tracks_ids:
  assumes "ids_fresh tr" "update_tracks env tr detections frm = Inr (trks, nid)"
  shows "distinct (map track_id trks)" "list_all (\<lambda>t. track_id t < nid) trks"
proof -
  from update_tracks_shape[OF assms(2)] obtain olds news where
    sh: "trks = olds @ news" "map track_id olds = map track_id (tracks tr)"
        "map track_id news = [next_id tr..<nid]" "next_id tr \<le> nid"
    by blast
  have old_lt: "\<forall>i\<in>set (map track_id (tracks tr)). i < next_id tr"
    using assms(1) by (auto simp add: ids_fresh_def list_all_iff)
  have "map track_id trks = map track_id (tracks tr) @ [next_id tr..<nid]"
    using sh by simp
  moreover have "distinct (map track_id (tracks tr) @ [next_id tr..<nid])"
    using assms(1) old_lt by (auto simp add: ids_fresh_def)
  ultimately show "distinct (map track_id trks)" by simp
  have "\<forall>i\<in>set (map track_id trks). i < nid"
    using sh old_lt by (simp del: set_map) (use sh(4) in fastforce)
  then show "list_all (\<lambda>t. track_id t < nid) trks" by (simp add: list_all_iff)
qed

lemma ids_fresh_init: "ids_fresh (HybridTracker_init fr)"
  by (simp add: ids_fresh_def HybridTracker_init_def)

lemma row_same_track:
  assumes "distinct (map track_id ts)" "t \<in> set ts" "u \<in> set ts" "result_row t = result_row u"
  shows "t = u"
proof -
  from assms(4) have "track_id t = track_id u" by (simp add: result_row_def)
  with assms(1,2,3) show ?thesis by (meson distinct_map inj_onD)
qed

lemma row_in_active:
  assumes "distinct (map track_id ts)" "t \<in> set ts"
  shows "result_row t \<in> set (active_results ts) \<longleftrightarrow> time_since_update t = 0 \<and> 3 \<le> hits t"
proof
  assume "result_row t \<in> set (active_results ts)"
  then obtain u where
    u: "u \<in> set ts" "time_since_update u < 1" "3 \<le> hits u" "result_row t = result_row u"
    by (auto simp add: active_results_def)
  from u(4) have "track_id t = track_id u" by (simp add: result_row_def)
  with assms u(1) have "t = u" by (meson distinct_map inj_onD)
  with u show "time_since_update t = 0 \<and> 3 \<le> hits t" by simp
next
  assume "time_since_update t = 0 \<and> 3 \<le> hits t"
  with assms(2) show "result_row t \<in> set (active_results ts)"
    by (auto simp add: active_results_def)
qed

subsection \<open>The stand-in libraries on the concrete frames\<close>

lemmas tracker_defs = update_def update_tracks_def associate_def remove_dead_def
  active_results_def result_row_def Track_predict_def Track_update_def Track_init_def
  HybridTracker_init_def stub_env_def det_box_def det_score_def update_kf_def new_kf_def
  box_to_z_def kf_get_box_def get_box_def feat_at_def reid_dists_def assign_row_def iou_def
  Let_def

lemmas demo_defs = demo_det_def far_det_def fresh_track_def lost_track_def lost_tracker_def
  seen_twice_def seen_twice_tracker_def seen_thrice_def far_track_def

lemma lost_tracker_reached:
  "run_frames stub_env (HybridTracker_init 1) [([demo_det], ()), ([], ())] = Inr lost_tracker"
  by (simp add: tracker_defs demo_defs)

lemma lost_tracker_step:
  "update_tracks stub_env lost_tracker [] ()
     = Inr ([lost_track\<lparr>age := 3, time_since_update := 2\<rparr>], 2)"
  by (simp add: tracker_defs demo_defs)

lemma seen_twice_reached:
  "run_frames stub_env (HybridTracker_init 30) [([demo_det], ()), ([demo_det], ())]
     = Inr seen_twice_tracker"
  by (simp add: tracker_defs demo_defs)

lemma seen_twice_step:
  "update_tracks stub_env seen_twice_tracker [demo_det, far_det] ()
     = Inr ([seen_thrice, far_track], 3)"
  by (simp add: tracker_defs demo_defs)

lemma seen_twice_update:
  "update stub_env seen_twice_tracker [demo_det, far_det] () =
     Inr (seen_twice_tracker\<lparr>tracks := [seen_thrice, far_track], next_id := 3\<rparr>,
          [((0, 0, 2, 2), 1, 9 / 10, 0)])"
  by (simp add: tracker_defs demo_defs)

lemma seen_twice_matches:
  "update_matches stub_env seen_twice_tracker [demo_det, far_det] () = Inr [(0, 0)]"
  by (simp add: update_matches_def tracker_defs demo_defs)

lemma seen_thrice_reached:
  "run_frames stub_env (HybridTracker_init 30)
     [([demo_det], ()), ([demo_det], ()), ([demo_det], ())] = Inr seen_thrice_tracker"
  by (simp add: tracker_defs demo_defs seen_thrice_tracker_def)

lemma seen_thrice_matches:
  "update_matches stub_env seen_thrice_tracker [] () = Inr []"
  by (simp add: update_matches_def tracker_defs demo_defs seen_thrice_tracker_def)

lemma seen_thrice_step:
  "update_tracks stub_env seen_thrice_tracker [] ()
     = Inr ([seen_thrice\<lparr>age := 4, time_since_update := 1\<rparr>], 2)"
  by (simp add: tracker_defs demo_defs seen_thrice_tracker_def)

lemma seen_thrice_update:
  "update stub_env seen_thrice_tracker [] ()
     = Inr (seen_thrice_tracker\<lparr>tracks := [seen_thrice\<lparr>age := 4, time_since_update := 1\<rparr>]\<rparr>,
            [])"
  by (simp add: tracker_defs demo_defs seen_thrice_tracker_def)

subsection \<open>Removal of dead tracks\<close>

text \<open>
  Claim C1, as the code has it. Let \<open>trks\<close> be the track list of \<open>HybridTracker.update\<close>
  just before the removal step. Then the call returns, the maximum age is unchanged
  (and is twice the frame rate in a new tracker), and a track of \<open>trks\<close> is retained if
  and only if its time since update is strictly below the maximum age: a track whose
  time since update equals the maximum age is removed.
\<close>

theorem removal_keeps_strictly_younger:
  assumes "update_tracks env tr detections frm = Inr (trks, nid)"
  shows "\<exists>tr' ret. update env tr detections frm = Inr (tr', ret)
           \<and> max_age tr' = max_age tr
           \<and> max_age (HybridTracker_init fr :: 'a HybridTracker) = fr * 2
           \<and> (\<forall>t\<in>set trks. t \<in> set (tracks tr') \<longleftrightarrow> int (time_since_update t) < max_age tr)
           \<and> set (tracks tr') \<subseteq> set trks"
  using update_result[OF assms] by (auto simp add: remove_dead_def HybridTracker_init_def)

text \<open>The theorem at a tracker with frame rate 30 holding a track that was just updated:
  the track is retained.\<close>

theorem removal_keeps_strictly_younger_witness:
  "update_tracks stub_env seen_twice_tracker [demo_det, far_det] ()
       = Inr ([seen_thrice, far_track], 3)
   \<and> (\<exists>tr' ret. update stub_env seen_twice_tracker [demo_det, far_det] () = Inr (tr', ret)
         \<and> max_age tr' = 60 \<and> seen_thrice \<in> set (tracks tr'))"
proof -
  have h: "update_tracks stub_env seen_twice_tracker [demo_det, far_det] ()
             = Inr ([seen_thrice, far_track], 3)"
    by (rule seen_twice_step)
  have age: "max_age seen_twice_tracker = 60"
    by (simp add: seen_twice_tracker_def HybridTracker_init_def)
  have young: "int (time_since_update seen_thrice) < 60"
    by (simp add: demo_defs Track_init_def)
  from removal_keeps_strictly_younger[OF h, of 30] obtain tr' ret where
    r: "update stub_env seen_twice_tracker [demo_det, far_det] () = Inr (tr', ret)"
       "max_age tr' = max_age seen_twice_tracker"
       "\<forall>t\<in>set [seen_thrice, far_track].
           t \<in> set (tracks tr') \<longleftrightarrow> int (time_since_update t) < max_age seen_twice_tracker"
    by blast
  from r(3) age young have "seen_thrice \<in> set (tracks tr')" by simp
  with r(1,2) age h show ?thesis by auto
qed

text \<open>
  Claim C1 as stated fails. A tracker with frame rate 1 (maximum age 2) saw a player in
  one frame and nothing in the next. In a third frame without detections the track's
  time since update becomes 2, which equals the maximum age and does not exceed it, and
  the track is removed.
\<close>

theorem removal_at_max_age_counterexample:
  "run_frames stub_env (HybridTracker_init 1) [([demo_det], ()), ([], ())] = Inr lost_tracker
   \<and> max_age lost_tracker = 2
   \<and> update_tracks stub_env lost_tracker [] ()
       = Inr ([lost_track\<lparr>age := 3, time_since_update := 2\<rparr>], 2)
   \<and> int (time_since_update (lost_track\<lparr>age := 3, time_since_update := 2\<rparr>)) = max_age lost_tracker
   \<and> update stub_env lost_tracker [] () = Inr (lost_tracker\<lparr>tracks := []\<rparr>, [])"
proof -
  have "update stub_env lost_tracker [] () = Inr (lost_tracker\<lparr>tracks := []\<rparr>, [])"
    by (simp add: tracker_defs demo_defs)
  moreover have "max_age lost_tracker = 2"
    by (simp add: lost_tracker_def HybridTracker_init_def)
  ultimately show ?thesis
    using lost_tracker_reached lost_tracker_step by simp
qed

subsection \<open>Output gating\<close>

text \<open>
  Claim C2. Take a tracker whose track ids are pairwise different (as \<open>update\<close> keeps
  them, starting from a new tracker) and a returning call of \<open>HybridTracker.update\<close>; let
  \<open>ms\<close> be the matches of this frame and \<open>trks\<close> the track list just before the removal
  step. An old track is updated in this frame exactly when a match names its index: then
  and only then its time since update is 0 (an unmatched track is one frame older than
  before), and it gains one hit per match. If the row of an old track is emitted, the
  track was matched in this frame and has at least 3 hits; with a positive maximum age
  the converse holds, so the track is emitted if and only if it was updated in this
  frame and has at least 3 hits. Of the tracks held after the call exactly those with
  time since update 0 and at least 3 hits are emitted, and nothing else is. Every track
  created in this frame (the tracks appended to the old ones) has hit count 1 and is
  not emitted.
\<close>

theorem emitted_iff_updated_and_confirmed:
  assumes "ids_fresh tr"
    and "update_matches env tr detections frm = Inr ms"
    and "update_tracks env tr detections frm = Inr (trks, nid)"
    and "update env tr detections frm = Inr (tr', ret)"
  shows "(\<forall>i < length (tracks tr).
            track_id (trks ! i) = track_id (tracks tr ! i)
          \<and> (time_since_update (trks ! i) = 0 \<longleftrightarrow> i \<in> fst ` set ms)
          \<and> hits (trks ! i) = hits (tracks tr ! i) + count_list (map fst ms) i
          \<and> (result_row (trks ! i) \<in> set ret \<longrightarrow> i \<in> fst ` set ms \<and> 3 \<le> hits (trks ! i))
          \<and> (0 < max_age tr \<and> i \<in> fst ` set ms \<and> 3 \<le> hits (trks ! i)
               \<longrightarrow> result_row (trks ! i) \<in> set ret))
       \<and> (\<forall>t\<in>set (tracks tr'). result_row t \<in> set ret \<longleftrightarrow> time_since_update t = 0 \<and> 3 \<le> hits t)
       \<and> (\<forall>row\<in>set ret. \<exists>t\<in>set (tracks tr'). row = result_row t)
       \<and> (\<forall>t\<in>set (drop (length (tracks tr)) trks). hits t = 1 \<and> result_row t \<notin> set ret)
       \<and> (0 < max_age tr \<longrightarrow> (\<forall>t\<in>set trks. time_since_update t = 0 \<longrightarrow> t \<in> set (tracks tr')))
       \<and> ids_fresh tr'"
proof -
  let ?kept = "remove_dead (max_age tr) trks"
  from update_result[OF assms(3)] assms(4)
  have tr': "tr' = tr\<lparr>tracks := ?kept, next_id := nid\<rparr>" and ret: "ret = active_results ?kept"
    by simp_all
  have tk: "tracks tr' = ?kept" using tr' by simp
  have d: "distinct (map track_id trks)" and lt: "list_all (\<lambda>t. track_id t < nid) trks"
    using update_tracks_ids[OF assms(1,3)] by simp_all
  have sub: "set ?kept \<subseteq> set trks" by (auto simp add: remove_dead_def)
  have dk: "distinct (map track_id ?kept)"
    using d unfolding remove_dead_def by (rule distinct_map_filter)
  have c1: "\<forall>t\<in>set (tracks tr').
              result_row t \<in> set ret \<longleftrightarrow> time_since_update t = 0 \<and> 3 \<le> hits t"
    unfolding tk ret using row_in_active[OF dk] by blast
  have c2: "\<forall>row\<in>set ret. \<exists>t\<in>set (tracks tr'). row = result_row t"
    unfolding tk ret by (auto simp add: active_results_def)
  have emitted: "time_since_update t = 0 \<and> 3 \<le> hits t"
    if "t \<in> set trks" "result_row t \<in> set ret" for t
  proof -
    from that(2) obtain u where
      u: "u \<in> set ?kept" "time_since_update u < 1" "3 \<le> hits u" "result_row t = result_row u"
      unfolding ret by (auto simp add: active_results_def)
    from u(1) sub have "u \<in> set trks" by blast
    from row_same_track[OF d that(1) this u(4)] u(2,3) show ?thesis by simp
  qed
  from update_tracks_shape[OF assms(3)] obtain olds news where
    sh: "trks = olds @ news" "map track_id olds = map track_id (tracks tr)"
        "list_all (\<lambda>t. hits t = 1 \<and> time_since_update t = 0) news"
    by blast
  have "length olds = length (tracks tr)" using sh(2) by (metis length_map)
  then have news: "drop (length (tracks tr)) trks = news" using sh(1) by simp
  have c3: "\<forall>t\<in>set (drop (length (tracks tr)) trks). hits t = 1 \<and> result_row t \<notin> set ret"
  proof
    fix t assume t: "t \<in> set (drop (length (tracks tr)) trks)"
    then have h1: "hits t = 1" using sh(3) news by (simp add: list_all_iff)
    have tin: "t \<in> set trks" using t by (rule in_set_dropD)
    from emitted[OF tin] h1 show "hits t = 1 \<and> result_row t \<notin> set ret" by auto
  qed
  have c4: "0 < max_age tr \<longrightarrow>
              (\<forall>t\<in>set trks. time_since_update t = 0 \<longrightarrow> t \<in> set (tracks tr'))"
    unfolding tk by (simp add: remove_dead_def)
  have c5: "ids_fresh tr'"
    unfolding ids_fresh_def using dk lt sub by (auto simp add: tr' list_all_iff)
  have c0: "\<forall>i < length (tracks tr).
            track_id (trks ! i) = track_id (tracks tr ! i)
          \<and> (time_since_update (trks ! i) = 0 \<longleftrightarrow> i \<in> fst ` set ms)
          \<and> hits (trks ! i) = hits (tracks tr ! i) + count_list (map fst ms) i
          \<and> (result_row (trks ! i) \<in> set ret \<longrightarrow> i \<in> fst ` set ms \<and> 3 \<le> hits (trks ! i))
          \<and> (0 < max_age tr \<and> i \<in> fst ` set ms \<and> 3 \<le> hits (trks ! i)
               \<longrightarrow> result_row (trks ! i) \<in> set ret)"
  proof (intro allI impI)
    fix i assume i: "i < length (tracks tr)"
    from update_tracks_old_tracks[OF assms(2,3) i] have
      o: "i < length trks" "track_id (trks ! i) = track_id (tracks tr ! i)"
         "hits (trks ! i) = hits (tracks tr ! i) + count_list (map fst ms) i"
         "i \<in> fst ` set ms \<longrightarrow> time_since_update (trks ! i) = 0"
         "i \<notin> fst ` set ms \<longrightarrow>
            time_since_update (trks ! i) = time_since_update (tracks tr ! i) + 1"
      by simp_all
    have tin: "trks ! i \<in> set trks" using o(1) by simp
    have iff: "time_since_update (trks ! i) = 0 \<longleftrightarrow> i \<in> fst ` set ms"
      using o(4,5) by auto
    have e1: "result_row (trks ! i) \<in> set ret \<longrightarrow> i \<in> fst ` set ms \<and> 3 \<le> hits (trks ! i)"
      using emitted[OF tin] iff by blast
    have e2: "0 < max_age tr \<and> i \<in> fst ` set ms \<and> 3 \<le> hits (trks ! i)
               \<longrightarrow> result_row (trks ! i) \<in> set ret"
    proof
      assume h: "0 < max_age tr \<and> i \<in> fst ` set ms \<and> 3 \<le> hits (trks ! i)"
      then have z: "time_since_update (trks ! i) = 0" using iff by simp
      with h tin have "trks ! i \<in> set ?kept" by (simp add: remove_dead_def)
      with z h show "result_row (trks ! i) \<in> set ret"
        unfolding ret by (auto simp add: active_results_def)
    qed
    from o(2,3) iff e1 e2
    show "track_id (trks ! i) = track_id (tracks tr ! i)
          \<and> (time_since_update (trks ! i) = 0 \<longleftrightarrow> i \<in> fst ` set ms)
          \<and> hits (trks ! i) = hits (tracks tr ! i) + count_list (map fst ms) i
          \<and> (result_row (trks ! i) \<in> set ret \<longrightarrow> i \<in> fst ` set ms \<and> 3 \<le> hits (trks ! i))
          \<and> (0 < max_age tr \<and> i \<in> fst ` set ms \<and> 3 \<le> hits (trks ! i)
               \<longrightarrow> result_row (trks ! i) \<in> set ret)"
      by blast
  qed
  from c0 c1 c2 c3 c4 c5 show ?thesis by blast
qed

text \<open>The theorem at two frames with a frame rate of 30. In the first, the standing
  player was seen twice before and is matched again while a second player appears: the
  old track reaches 3 hits and is emitted, the new one is not. In the second, the
  confirmed track of the standing player meets an empty frame: it is not matched, its
  time since update becomes 1 and nothing is emitted.\<close>

theorem emitted_iff_updated_and_confirmed_witness:
  "ids_fresh seen_twice_tracker
   \<and> update_matches stub_env seen_twice_tracker [demo_det, far_det] () = Inr [(0, 0)]
   \<and> update_tracks stub_env seen_twice_tracker [demo_det, far_det] ()
       = Inr ([seen_thrice, far_track], 3)
   \<and> update stub_env seen_twice_tracker [demo_det, far_det] () =
       Inr (seen_twice_tracker\<lparr>tracks := [seen_thrice, far_track], next_id := 3\<rparr>,
            [((0, 0, 2, 2), 1, 9 / 10, 0)])
   \<and> 0 < max_age seen_twice_tracker
   \<and> time_since_update seen_thrice = 0
   \<and> hits seen_thrice = hits seen_twice + 1
   \<and> hits seen_thrice = 3
   \<and> result_row seen_thrice \<in> set [((0, 0, 2, 2), 1, 9 / 10, 0)]
   \<and> hits far_track = 1
   \<and> result_row far_track \<notin> set [((0, 0, 2, 2), 1, 9 / 10, 0 :: nat)]
   \<and> ids_fresh seen_thrice_tracker
   \<and> update_matches stub_env seen_thrice_tracker [] () = Inr []
   \<and> update_tracks stub_env seen_thrice_tracker [] ()
       = Inr ([seen_thrice\<lparr>age := 4, time_since_update := 1\<rparr>], 2)
   \<and> update stub_env seen_thrice_tracker [] ()
       = Inr (seen_thrice_tracker\<lparr>tracks := [seen_thrice\<lparr>age := 4, time_since_update := 1\<rparr>]\<rparr>,
              [])
   \<and> time_since_update (seen_thrice\<lparr>age := 4, time_since_update := 1\<rparr>) \<noteq> 0
   \<and> hits (seen_thrice\<lparr>age := 4, time_since_update := 1\<rparr>) = 3
   \<and> result_row (seen_thrice\<lparr>age := 4, time_since_update := 1\<rparr>)
       \<notin> set ([] :: result_row list)"
proof -
  let ?row = "((0, 0, 2, 2), 1, 9 / 10, 0) :: result_row"
  let ?aged = "seen_thrice\<lparr>age := 4, time_since_update := 1\<rparr>"
  have f1: "ids_fresh seen_twice_tracker"
    by (simp add: ids_fresh_def demo_defs HybridTracker_init_def Track_init_def)
  have f2: "ids_fresh seen_thrice_tracker"
    by (simp add: ids_fresh_def demo_defs seen_thrice_tracker_def HybridTracker_init_def
        Track_init_def)
  have len: "length (tracks seen_twice_tracker) = 1" "tracks seen_twice_tracker ! 0 = seen_twice"
    "length (tracks seen_thrice_tracker) = 1" "tracks seen_thrice_tracker ! 0 = seen_thrice"
    by (simp_all add: seen_twice_tracker_def seen_thrice_tracker_def)
  have age: "0 < max_age seen_twice_tracker"
    by (simp add: seen_twice_tracker_def HybridTracker_init_def)
  have h3: "hits seen_thrice = 3" by (simp add: demo_defs Track_init_def)
  note one = emitted_iff_updated_and_confirmed[OF f1 seen_twice_matches seen_twice_step
      seen_twice_update]
  have i1: "0 < length (tracks seen_twice_tracker)" using len by simp
  from one[THEN conjunct1, rule_format, OF i1] len age h3
  have a: "time_since_update seen_thrice = 0" "hits seen_thrice = hits seen_twice + 1"
    "result_row seen_thrice \<in> set [?row]"
    by simp_all
  from one[THEN conjunct2, THEN conjunct2, THEN conjunct2, THEN conjunct1] len
  have b: "hits far_track = 1 \<and> result_row far_track \<notin> set [?row]" by simp
  note two = emitted_iff_updated_and_confirmed[OF f2 seen_thrice_matches seen_thrice_step
      seen_thrice_update]
  have i2: "0 < length (tracks seen_thrice_tracker)" using len by simp
  from two[THEN conjunct1, rule_format, OF i2] len h3
  have c: "time_since_update ?aged \<noteq> 0" "hits ?aged = 3"
    by simp_all
  from a b c f1 f2 age h3 seen_twice_matches seen_twice_step seen_twice_update
    seen_thrice_matches seen_thrice_step seen_thrice_update
  show ?thesis by simp
qed

subsection \<open>Box and filter state\<close>

text \<open>
  Claim C9. For a box \<open>[x1, y1, x2, y2]\<close> with \<open>x2 > x1\<close> and \<open>y2 > y1\<close>, writing it into the
  filter state as \<open>Track.update_kf\<close> does (centre, scale \<open>w * h\<close>, ratio \<open>w / h\<close>) and reading
  it back as \<open>Track.get_box\<close> does (\<open>w = sqrt (scale * ratio)\<close>, \<open>h = scale / w\<close>) gives the
  box again, over the reals; so a new track reports the box it was built from.
\<close>

theorem box_state_roundtrip:
  assumes "x1 < x2" and "y1 < y2"
  shows "kf_get_box (update_kf k (x1, y1, x2, y2)) = (x1, y1, x2, y2)
       \<and> get_box (Track_init tid (x1, y1, x2, y2) sc f) = (x1, y1, x2, y2)"
proof -
  define w where "w = x2 - x1"
  define h where "h = y2 - y1"
  have wpos: "0 < w" and hpos: "0 < h" using assms by (simp_all add: w_def h_def)
  have z: "box_to_z (x1, y1, x2, y2) = (x1 + w / 2, y1 + h / 2, w * h, w / h)"
    by (simp add: box_to_z_def Let_def w_def h_def)
  have rt: "kf_get_box (update_kf kk (x1, y1, x2, y2)) = (x1, y1, x2, y2)" for kk
  proof -
    obtain a b c d vx vy vs where kx: "kf_x kk = (a, b, c, d, vx, vy, vs)"
      by (metis prod_cases7)
    have "kf_get_box (update_kf kk (x1, y1, x2, y2)) =
            (x1 + w / 2 - w / 2, y1 + h / 2 - h / 2, x1 + w / 2 + w / 2, y1 + h / 2 + h / 2)"
      unfolding kf_get_box_def update_kf_def z kx using wpos hpos by (simp add: Let_def)
    also have "\<dots> = (x1, y1, x2, y2)" by (simp add: w_def h_def)
    finally show ?thesis .
  qed
  have "get_box (Track_init tid (x1, y1, x2, y2) sc f) = kf_get_box (update_kf new_kf (x1, y1, x2, y2))"
    by (simp add: get_box_def Track_init_def)
  with rt show ?thesis by simp
qed

theorem box_state_roundtrip_witness:
  "(0 :: real) < 2 \<and> (1 :: real) < 5
   \<and> kf_get_box (update_kf new_kf (0, 1, 2, 5)) = (0, 1, 2, 5)
   \<and> get_box (Track_init 7 (0, 1, 2, 5) (9 / 10) (Some [])) = (0, 1, 2, 5)"
proof -
  have a: "(0 :: real) < 2" and b: "(1 :: real) < 5" by simp_all
  from box_state_roundtrip[OF a b, of new_kf 7 "9 / 10" "Some []"] a b show ?thesis by simp
qed

subsection \<open>The feature buffer\<close>

lemma buffer_ok_init: "buffer_ok (Track_init tid b sc f)"
  by (simp add: buffer_ok_def Track_init_def split: option.splits)

lemma buffer_ok_predict: "buffer_ok t \<Longrightarrow> buffer_ok (fst (Track_predict env t))"
  by (simp add: buffer_ok_def Track_predict_def Let_def)

lemma buffer_ok_update: "buffer_ok t \<Longrightarrow> buffer_ok (Track_update env t b sc f)"
  by (auto simp add: buffer_ok_def Track_update_def Let_def split: option.splits)

lemma buffer_ok_run_op: "buffer_ok t \<Longrightarrow> buffer_ok (run_op env t op)"
  by (cases op) (simp_all add: buffer_ok_predict buffer_ok_update)

lemma buffer_ok_run_ops: "buffer_ok t \<Longrightarrow> buffer_ok (run_ops env t ops)"
  unfolding run_ops_def
  by (induction ops arbitrary: t) (simp_all add: buffer_ok_run_op)

lemma update_features:
  "buffer_ok t \<Longrightarrow> features (Track_update env t b sc (Some f)) =
     (if length (features t) < 100 then features t @ [f] else tl (features t) @ [f])"
  by (cases "features t") (auto simp add: buffer_ok_def Track_update_def Let_def)

lemma predict_features: "features (fst (Track_predict env t)) = features t"
  by (simp add: Track_predict_def Let_def)

lemma update_features_none: "features (Track_update env t b sc None) = features t"
  by (simp add: Track_update_def Let_def)

text \<open>Feeding the same embedding \<open>n\<close> times: the buffer is the last hundred entries.\<close>

lemma run_ops_snoc: "run_ops env t (ops @ [op]) = run_op env (run_ops env t ops) op"
  by (simp add: run_ops_def)

lemma features_after_updates:
  assumes "buffer_ok t"
  shows "features (run_ops env t (replicate n (Update b sc (Some f)))) =
           drop (length (features t) + n - 100) (features t @ replicate n f)"
proof (induction n)
  case 0
  then show ?case using assms by (simp add: run_ops_def buffer_ok_def)
next
  case (Suc n)
  let ?u = "run_ops env t (replicate n (Update b sc (Some f)))"
  have ok: "buffer_ok ?u" using assms by (rule buffer_ok_run_ops)
  have "replicate (Suc n) (Update b sc (Some f)) = replicate n (Update b sc (Some f)) @ [Update b sc (Some f)]"
    by (simp add: replicate_append_same)
  then have "features (run_ops env t (replicate (Suc n) (Update b sc (Some f)))) =
               features (Track_update env ?u b sc (Some f))"
    by (simp only: run_ops_snoc run_op.simps)
  also have "\<dots> = (if length (features ?u) < 100 then features ?u @ [f] else tl (features ?u) @ [f])"
    using ok by (rule update_features)
  finally have step: "features (run_ops env t (replicate (Suc n) (Update b sc (Some f)))) =
      (if length (features ?u) < 100 then features ?u @ [f] else tl (features ?u) @ [f])" .
  have le: "length (features t) \<le> 100" using assms by (simp add: buffer_ok_def)
  show ?case
  proof (cases "length (features t) + n < 100")
    case True
    then show ?thesis using step Suc.IH by (simp add: replicate_append_same)
  next
    case False
    then have full: "length (features ?u) = 100" using Suc.IH le by simp
    have "tl (features ?u) = drop (Suc (length (features t) + n - 100)) (features t @ replicate n f)"
      by (simp only: Suc.IH drop_Suc tl_drop)
    moreover have "Suc (length (features t) + n - 100) = length (features t) + Suc n - 100"
      using False by simp
    moreover have "length (features t) + Suc n - 100 \<le> length (features t @ replicate n f)"
      using le by simp
    ultimately have "tl (features ?u) @ [f] =
        drop (length (features t) + Suc n - 100) ((features t @ replicate n f) @ [f])"
      by (simp del: append_assoc replicate_Suc)
    then show ?thesis using step full by (simp add: replicate_append_same)
  qed
qed

text \<open>
  Claim C10. After the construction of a track and any sequence of \<open>predict\<close> and \<open>update\<close>
  calls the feature buffer holds at most 100 embeddings, and an \<open>update\<close> with an
  embedding appends it, evicting the oldest stored embedding (the head of the buffer)
  exactly when the buffer is full.
\<close>

theorem feature_buffer_bounded_fifo:
  "length (features (run_ops env (Track_init tid b sc f0) ops)) \<le> 100
   \<and> features (Track_update env (run_ops env (Track_init tid b sc f0) ops) b' sc' (Some f)) =
       (if length (features (run_ops env (Track_init tid b sc f0) ops)) < 100
        then features (run_ops env (Track_init tid b sc f0) ops) @ [f]
        else tl (features (run_ops env (Track_init tid b sc f0) ops)) @ [f])"
proof -
  have ok: "buffer_ok (run_ops env (Track_init tid b sc f0) ops)"
    using buffer_ok_init by (rule buffer_ok_run_ops)
  then have "length (features (run_ops env (Track_init tid b sc f0) ops)) \<le> 100"
    by (simp add: buffer_ok_def)
  with update_features[OF ok, of env b' sc' f] show ?thesis by simp
qed

text \<open>The theorem at a full buffer: a track built with the embedding \<open>[0]\<close> and updated a
  hundred times with \<open>[1]\<close> holds a hundred times \<open>[1]\<close>; the next update drops the head.\<close>

theorem feature_buffer_bounded_fifo_witness:
  "length (features (run_ops stub_env (Track_init 1 (0, 0, 2, 2) (9 / 10) (Some [0]))
             (replicate 100 (Update (0, 0, 2, 2) (9 / 10) (Some [1]))))) = 100
   \<and> features (Track_update stub_env
        (run_ops stub_env (Track_init 1 (0, 0, 2, 2) (9 / 10) (Some [0]))
           (replicate 100 (Update (0, 0, 2, 2) (9 / 10) (Some [1]))))
        (0, 0, 2, 2) (9 / 10) (Some [2])) = replicate 99 [1] @ [[2]]"
proof -
  let ?t0 = "Track_init 1 (0, 0, 2, 2) (9 / 10) (Some [0]) :: real list Track"
  let ?ops = "replicate 100 (Update (0, 0, 2, 2) (9 / 10) (Some [1 :: real]))"
  have f0: "features ?t0 = [[0]]" by (simp add: Track_init_def)
  have "features (run_ops stub_env ?t0 ?ops) = drop (length (features ?t0) + 100 - 100) (features ?t0 @ replicate 100 [1])"
    using buffer_ok_init by (rule features_after_updates)
  then have fs: "features (run_ops stub_env ?t0 ?ops) = replicate 100 [1]"
    by (simp add: f0)
  have "tl (replicate 100 [1 :: real]) = replicate 99 [1]"
    by (simp add: tl_replicate)
  with feature_buffer_bounded_fifo[of stub_env 1 "(0, 0, 2, 2)" "9 / 10" "Some [0]" ?ops
      "(0, 0, 2, 2)" "9 / 10" "[2]"] fs
  show ?thesis by simp
qed

section \<open>Properties of the coordinate transform\<close>











lemma list_ex_None: "list_ex (\<lambda>v. v = None) ps \<longleftrightarrow> \<not> list_all (\<lambda>v. v \<noteq> None) ps"
  by (induction ps) auto

lemmas parse_defs = from_string_def from_string_body_def parse_values_def parsed_matrix_def
  HomographyTransform_init_def validate_matrix_def is_3x3_def allclose_zero_def
  int_literal_def digit_val_def py_strip_def py_isspace_def Let_def

text \<open>
  Claim C7, as the code has it. \<open>from_string\<close> never raises. The transform it returns is
  enabled if and only if every comma-separated piece of the string is read as a number,
  there are exactly 9 of them, and not all nine are within \<open>1e-8\<close> of zero (the test
  \<open>np.allclose(matrix, 0)\<close> of \<open>_validate_matrix\<close>); it then holds the nine numbers as
  three rows. In every other case it is disabled, holds no matrix, and \<open>transform\<close> is
  the identity.
\<close>

theorem from_string_enabled_iff:
  "\<exists>h. from_string to_float s = Inr h
     \<and> (enabled h \<longleftrightarrow>
          list_all (\<lambda>v. v \<noteq> None) (parse_values to_float s)
          \<and> length (parse_values to_float s) = 9
          \<and> \<not> allclose_zero (parsed_matrix to_float s))
     \<and> (enabled h \<longrightarrow> matrix h = Some (parsed_matrix to_float s))
     \<and> (\<not> enabled h \<longrightarrow> matrix h = None \<and> (\<forall>x y. transform h x y = (Finite x, Finite y)))"
proof -
  let ?ps = "parse_values to_float s"
  let ?m = "parsed_matrix to_float s"
  have shape: "length ?ps = 9 \<Longrightarrow> is_3x3 ?m"
    by (simp add: is_3x3_def parsed_matrix_def Let_def)
  have body: "from_string_body to_float s =
                (if list_ex (\<lambda>v. v = None) ?ps then Inl ValueError
                 else if length ?ps \<noteq> 9 then Inl ValueError
                 else HomographyTransform_init (Some ?m))"
    by (simp add: from_string_body_def parsed_matrix_def Let_def)
  show ?thesis
  proof (cases "list_all (\<lambda>v. v \<noteq> None) ?ps \<and> length ?ps = 9 \<and> \<not> allclose_zero ?m")
    case True
    then have "from_string to_float s = Inr \<lparr>matrix = Some ?m, enabled = True\<rparr>"
      using shape
      by (simp add: from_string_def body list_ex_None HomographyTransform_init_def
          validate_matrix_def)
    with True show ?thesis by simp
  next
    case False
    then have "from_string to_float s = Inr \<lparr>matrix = None, enabled = False\<rparr>"
      using shape
      by (auto simp add: from_string_def body list_ex_None HomographyTransform_init_def
          validate_matrix_def)
    with False show ?thesis by (simp add: transform_def)
  qed
qed

text \<open>The theorem at the identity matrix written with blanks, at nine zeros and at a
  string of three values.\<close>

theorem from_string_enabled_iff_witness:
  "(\<exists>h. from_string int_literal ''1, 0,0,0,1,0,0,0 ,1'' = Inr h \<and> enabled h
        \<and> matrix h = Some [[1, 0, 0], [0, 1, 0], [0, 0, 1]])
   \<and> (\<exists>h. from_string int_literal ''0,0,0,0,0,0,0,0,0'' = Inr h \<and> \<not> enabled h
        \<and> matrix h = None \<and> transform h 3 4 = (Finite 3, Finite 4))
   \<and> (\<exists>h. from_string int_literal ''1,2,3'' = Inr h \<and> \<not> enabled h
        \<and> matrix h = None \<and> transform h 3 4 = (Finite 3, Finite 4))"
proof -
  have v1: "parse_values int_literal ''1, 0,0,0,1,0,0,0 ,1''
              = map Some [1, 0, 0, 0, 1, 0, 0, 0, 1]"
    by (simp add: parse_defs)
  have v2: "parse_values int_literal ''0,0,0,0,0,0,0,0,0''
              = map Some [0, 0, 0, 0, 0, 0, 0, 0, 0]"
    by (simp add: parse_defs)
  have v3: "parse_values int_literal ''1,2,3'' = map Some [1, 2, 3]"
    by (simp add: parse_defs)
  from from_string_enabled_iff[of int_literal "''1, 0,0,0,1,0,0,0 ,1''"]
  have a: "\<exists>h. from_string int_literal ''1, 0,0,0,1,0,0,0 ,1'' = Inr h \<and> enabled h
             \<and> matrix h = Some [[1, 0, 0], [0, 1, 0], [0, 0, 1]]"
    by (auto simp add: v1 parsed_matrix_def allclose_zero_def)
  from from_string_enabled_iff[of int_literal "''0,0,0,0,0,0,0,0,0''"]
  have b: "\<exists>h. from_string int_literal ''0,0,0,0,0,0,0,0,0'' = Inr h \<and> \<not> enabled h
             \<and> matrix h = None \<and> transform h 3 4 = (Finite 3, Finite 4)"
    by (auto simp add: v2 parsed_matrix_def allclose_zero_def)
  from from_string_enabled_iff[of int_literal "''1,2,3''"]
  have c: "\<exists>h. from_string int_literal ''1,2,3'' = Inr h \<and> \<not> enabled h
             \<and> matrix h = None \<and> transform h 3 4 = (Finite 3, Finite 4)"
    by (auto simp add: v3)
  from a b c show ?thesis by blast
qed

text \<open>
  Claim C7 as stated fails for degenerate matrices that are not all-zero. The string
  \<open>1,0,0,0,0,0,0,0,0\<close> yields a matrix of rank 1 (determinant 0, its last row zero, so the
  perspective divide is never defined), and the transform built from it is enabled.
\<close>

theorem from_string_degenerate_counterexample:
  "from_string int_literal ''1,0,0,0,0,0,0,0,0''
     = Inr \<lparr>matrix = Some [[1, 0, 0], [0, 0, 0], [0, 0, 0]], enabled = True\<rparr>
   \<and> det3 [[1, 0, 0], [0, 0, 0], [0, 0, 0]] = 0"
  by (simp add: parse_defs det3_def)

section \<open>Properties of the threat grid\<close>

lemma np_clip_mono: "a \<le> b \<Longrightarrow> np_clip a lo hi \<le> np_clip b lo hi"
  by (auto simp add: np_clip_def min_def max_def)

lemma np_clip_bounds: "lo \<le> hi \<Longrightarrow> lo \<le> np_clip v lo hi \<and> np_clip v lo hi \<le> hi"
  by (auto simp add: np_clip_def min_def max_def)

lemma py_int_clip:
  assumes "0 \<le> v" "v \<le> real n"
  shows "0 \<le> py_int v" "py_int v \<le> int n" "py_int v = \<lfloor>v\<rfloor>"
proof -
  show e: "py_int v = \<lfloor>v\<rfloor>" using assms(1) by (simp add: py_int_def)
  show "0 \<le> py_int v" using assms(1) by (simp add: e)
  have "\<lfloor>v\<rfloor> \<le> \<lfloor>real n\<rfloor>" using assms(2) by (rule floor_mono)
  then show "py_int v \<le> int n" by (simp add: e)
qed

lemma np_index_in_range:
  "0 \<le> i \<Longrightarrow> i < int (length xs) \<Longrightarrow> np_index xs i = Some (xs ! nat i)"
  by (simp add: np_index_def Let_def)

text \<open>Every row of the hardcoded grid has twelve entries and is non-decreasing.\<close>

lemma grid_rows:
  assumes "r < 8"
  shows "length (grid (XThreatGrid_init fl fw) ! r) = 12
       \<and> sorted (grid (XThreatGrid_init fl fw) ! r)"
proof -
  from assms have "r = 0 \<or> r = 1 \<or> r = 2 \<or> r = 3 \<or> r = 4 \<or> r = 5 \<or> r = 6 \<or> r = 7"
    by arith
  then show ?thesis
    by (elim disjE) (simp_all add: XThreatGrid_init_def)
qed

lemma grid_length: "length (grid (XThreatGrid_init fl fw)) = 8"
  by (simp add: XThreatGrid_init_def)

text \<open>
  Claim C8. On a grid built by \<open>XThreatGrid.__init__\<close> for a field of positive length,
  the looked-up value is monotone in \<open>x\<close>: for every \<open>y\<close> and all \<open>x1 \<le> x2\<close>,
  \<open>get_value(x1, y) \<le> get_value(x2, y)\<close>.
\<close>

theorem xthreat_monotone_in_x:
  assumes "0 < fl" and "x1 \<le> x2"
  shows "get_value (XThreatGrid_init fl fw) x1 y \<le> get_value (XThreatGrid_init fl fw) x2 y"
proof (cases "fw / 8 = 0")
  case True
  then show ?thesis by (simp add: get_value_def XThreatGrid_init_def Let_def)
next
  case False
  let ?g = "XThreatGrid_init fl fw"
  have fl: "field_length ?g = fl" and fw: "field_width ?g = fw"
    by (simp_all add: XThreatGrid_init_def)
  define c1 where "c1 = py_int (np_clip (x1 / (fl / 12)) 0 11)"
  define c2 where "c2 = py_int (np_clip (x2 / (fl / 12)) 0 11)"
  define r where "r = py_int (np_clip (y / (fw / 8)) 0 7)"
  have cell: "0 < fl / 12" using assms(1) by simp
  have "x1 / (fl / 12) \<le> x2 / (fl / 12)"
    using assms(2) cell by (simp add: divide_right_mono)
  then have clip: "np_clip (x1 / (fl / 12)) 0 11 \<le> np_clip (x2 / (fl / 12)) 0 11"
    by (rule np_clip_mono)
  have b1: "0 \<le> np_clip (x1 / (fl / 12)) 0 11 \<and> np_clip (x1 / (fl / 12)) 0 11 \<le> real 11"
    using np_clip_bounds[of 0 11 "x1 / (fl / 12)"] by simp
  have b2: "0 \<le> np_clip (x2 / (fl / 12)) 0 11 \<and> np_clip (x2 / (fl / 12)) 0 11 \<le> real 11"
    using np_clip_bounds[of 0 11 "x2 / (fl / 12)"] by simp
  have br: "0 \<le> np_clip (y / (fw / 8)) 0 7 \<and> np_clip (y / (fw / 8)) 0 7 \<le> real 7"
    using np_clip_bounds[of 0 7 "y / (fw / 8)"] by simp
  have c1r: "0 \<le> c1" "c1 \<le> 11" and c2r: "0 \<le> c2" "c2 \<le> 11" and rr: "0 \<le> r" "r \<le> 7"
    using py_int_clip(1,2)[of _ 11] py_int_clip(1,2)[of _ 7] b1 b2 br
    unfolding c1_def c2_def r_def by simp_all
  have c12: "c1 \<le> c2"
    unfolding c1_def c2_def using py_int_clip(3)[of _ 11] b1 b2 clip by (simp add: floor_mono)
  have rn: "nat r < 8" using rr by simp
  let ?row = "grid ?g ! nat r"
  have row: "length ?row = 12" "sorted ?row" using grid_rows[OF rn] by simp_all
  have ir: "np_index (grid ?g) r = Some ?row"
    using rr by (simp add: np_index_in_range grid_length)
  have i1: "np_index ?row c1 = Some (?row ! nat c1)"
    using c1r row(1) by (simp add: np_index_in_range)
  have i2: "np_index ?row c2 = Some (?row ! nat c2)"
    using c2r row(1) by (simp add: np_index_in_range)
  have v1: "get_value ?g x1 y = ?row ! nat c1"
    using False cell ir i1 unfolding get_value_def fl fw Let_def c1_def r_def by simp
  have v2: "get_value ?g x2 y = ?row ! nat c2"
    using False cell ir i2 unfolding get_value_def fl fw Let_def c2_def r_def by simp
  have "?row ! nat c1 \<le> ?row ! nat c2"
    using row c12 c1r c2r by (intro sorted_nth_mono) simp_all
  with v1 v2 show ?thesis by simp
qed

text \<open>The theorem on the default field, 10 and 100 metres up the pitch at \<open>y = 30\<close>.\<close>

theorem xthreat_monotone_in_x_witness:
  "(0 :: real) < 105 \<and> (10 :: real) \<le> 100
   \<and> get_value (XThreatGrid_init 105 68) 10 30 = 25 / 1000
   \<and> get_value (XThreatGrid_init 105 68) 100 30 = 75 / 100
   \<and> get_value (XThreatGrid_init 105 68) 10 30 \<le> get_value (XThreatGrid_init 105 68) 100 30"
proof -
  have a: "(0 :: real) < 105" and b: "(10 :: real) \<le> 100" by simp_all
  have v: "get_value (XThreatGrid_init 105 68) 10 30 = 25 / 1000"
          "get_value (XThreatGrid_init 105 68) 100 30 = 75 / 100"
    by (simp_all add: get_value_def XThreatGrid_init_def Let_def np_clip_def py_int_def
        np_index_def)
  from xthreat_monotone_in_x[OF a b, of 68 30] a b v show ?thesis by simp
qed

section \<open>Properties of the velocity computation\<close>

lemma length_np_diff: "length (np_diff xs) = length xs - 1"
  by (simp add: np_diff_def)

lemma nth_np_diff: "Suc i < length xs \<Longrightarrow> np_diff xs ! i = xs ! Suc i - xs ! i"
  by (simp add: np_diff_def nth_tl)

lemma length_np_diff_rows: "length (np_diff_rows ps) = length ps - 1"
  by (simp add: np_diff_rows_def)

lemma nth_np_diff_rows:
  "Suc i < length ps \<Longrightarrow>
     np_diff_rows ps ! i = (fst (ps ! Suc i) - fst (ps ! i), snd (ps ! Suc i) - snd (ps ! i))"
  by (simp add: np_diff_rows_def nth_tl split: prod.splits)

lemma np_clip_zero: "0 \<le> m \<Longrightarrow> np_clip 0 0 m = 0"
  by (simp add: np_clip_def)

lemma np_clip_range: "0 \<le> m \<Longrightarrow> 0 \<le> np_clip v 0 m \<and> np_clip v 0 m \<le> m"
  by (simp add: np_clip_def)

text \<open>A configuration that passed \<open>__post_init__\<close> has a positive maximum speed.\<close>

lemma post_init_max_speed: "post_init c = Inr c' \<Longrightarrow> 0 < max_speed_ms c'"
  by (auto simp add: post_init_def split: if_splits)

text \<open>
  Claim C3, as the code has it. For a non-zero \<open>fps\<close>, a non-negative maximum speed and
  as many timestamps as coordinates, \<open>_compute_velocity\<close> returns one velocity per point.
  The first is 0. For each consecutive pair, with \<open>d\<close> the distance of the two points and
  \<open>dt\<close> their time-delta, a zero time-delta replaced by \<open>1 / fps\<close>, the velocity is 0 when
  \<open>d\<close> reaches or exceeds \<open>max_distance_jump_m\<close> or \<open>dt\<close> reaches or exceeds
  \<open>max_frame_gap_seconds\<close>, and otherwise \<open>d / dt\<close> clamped into \<open>[0, max_speed_ms]\<close>; in
  both cases it lies in \<open>[0, max_speed_ms]\<close>.
\<close>

theorem velocity_per_step:
  assumes "fps \<noteq> 0" and "length coords = length timestamps" and "0 \<le> max_speed_ms cfg"
  shows "\<exists>vs. compute_velocity cfg coords timestamps fps = Inr vs
           \<and> length vs = Suc (length timestamps - 1)
           \<and> vs ! 0 = 0
           \<and> (\<forall>i. Suc i < length timestamps \<longrightarrow>
                 (let d = norm_row (fst (coords ! Suc i) - fst (coords ! i),
                                    snd (coords ! Suc i) - snd (coords ! i));
                      gap = timestamps ! Suc i - timestamps ! i;
                      dt = (if gap = 0 then 1 / fps else gap)
                  in vs ! Suc i =
                       (if d \<ge> max_distance_jump_m cfg \<or> dt \<ge> max_frame_gap_seconds cfg then 0
                        else np_clip (d / dt) 0 (max_speed_ms cfg))
                     \<and> 0 \<le> vs ! Suc i \<and> vs ! Suc i \<le> max_speed_ms cfg))"
proof -
  let ?dt = "map (\<lambda>d. if d = 0 then 1 / fps else d) (np_diff timestamps)"
  let ?dist = "map norm_row (np_diff_rows coords)"
  let ?valid = "map2 (\<lambda>d t. d < max_distance_jump_m cfg \<and> t < max_frame_gap_seconds cfg)
                  ?dist ?dt"
  let ?v1 = "map2 (\<lambda>ok (d, t). if ok then d / t else 0) ?valid (zip ?dist ?dt)"
  let ?vs = "0 # map (\<lambda>v. np_clip v 0 (max_speed_ms cfg)) ?v1"
  have len: "length ?dist = length ?dt"
    using assms(2) by (simp add: length_np_diff length_np_diff_rows)
  have res: "compute_velocity cfg coords timestamps fps = Inr ?vs"
    using assms(1) len unfolding compute_velocity_def Let_def by simp
  have lvs: "length ?vs = Suc (length timestamps - 1)"
    using assms(2) by (simp add: length_np_diff length_np_diff_rows)
  have steps: "\<forall>i. Suc i < length timestamps \<longrightarrow>
                 (let d = norm_row (fst (coords ! Suc i) - fst (coords ! i),
                                    snd (coords ! Suc i) - snd (coords ! i));
                      gap = timestamps ! Suc i - timestamps ! i;
                      dt = (if gap = 0 then 1 / fps else gap)
                  in ?vs ! Suc i =
                       (if d \<ge> max_distance_jump_m cfg \<or> dt \<ge> max_frame_gap_seconds cfg then 0
                        else np_clip (d / dt) 0 (max_speed_ms cfg))
                     \<and> 0 \<le> ?vs ! Suc i \<and> ?vs ! Suc i \<le> max_speed_ms cfg)"
  proof (intro allI impI)
    fix i assume i: "Suc i < length timestamps"
    then have ic: "Suc i < length coords" using assms(2) by simp
    have i1: "i < length (np_diff timestamps)" "i < length (np_diff_rows coords)"
      using i ic by (simp_all add: length_np_diff length_np_diff_rows)
    have a: "?dt ! i = (if timestamps ! Suc i - timestamps ! i = 0 then 1 / fps
                        else timestamps ! Suc i - timestamps ! i)"
      using i1 by (simp add: nth_np_diff[OF i])
    have b: "?dist ! i = norm_row (fst (coords ! Suc i) - fst (coords ! i),
                                  snd (coords ! Suc i) - snd (coords ! i))"
      using i1 by (simp add: nth_np_diff_rows[OF ic])
    have c: "?vs ! Suc i =
               np_clip (if ?dist ! i < max_distance_jump_m cfg \<and> ?dt ! i < max_frame_gap_seconds cfg
                        then ?dist ! i / ?dt ! i else 0) 0 (max_speed_ms cfg)"
      using i1 by simp
    show "(let d = norm_row (fst (coords ! Suc i) - fst (coords ! i),
                             snd (coords ! Suc i) - snd (coords ! i));
               gap = timestamps ! Suc i - timestamps ! i;
               dt = (if gap = 0 then 1 / fps else gap)
           in ?vs ! Suc i =
                (if d \<ge> max_distance_jump_m cfg \<or> dt \<ge> max_frame_gap_seconds cfg then 0
                 else np_clip (d / dt) 0 (max_speed_ms cfg))
              \<and> 0 \<le> ?vs ! Suc i \<and> ?vs ! Suc i \<le> max_speed_ms cfg)"
      unfolding Let_def c a b using np_clip_zero[OF assms(3)] np_clip_range[OF assms(3)]
      by (auto simp add: not_less)
  qed
  from res lvs steps show ?thesis by (intro exI[of _ ?vs]) simp
qed

text \<open>The theorem at three points one metre and then zero metres apart, the first two
  with the same timestamp, at 25 frames per second: the fallback \<open>dt = 1/25\<close> gives
  25 m/s, clamped to 12.5.\<close>

theorem velocity_per_step_witness:
  "(25 :: real) \<noteq> 0
   \<and> length [(0, 0), (1, 0), (1 :: real, 0 :: real)] = length [0, 0, 1 / 5 :: real]
   \<and> 0 \<le> max_speed_ms default_config
   \<and> (\<exists>vs. compute_velocity default_config [(0, 0), (1, 0), (1, 0)] [0, 0, 1 / 5] 25 = Inr vs
         \<and> length vs = 3 \<and> vs ! 0 = 0 \<and> vs ! 1 = 25 / 2 \<and> vs ! 2 = 0)"
proof -
  let ?cs = "[(0, 0), (1, 0), (1 :: real, 0 :: real)]"
  let ?ts = "[0, 0, 1 / 5 :: real]"
  have h1: "(25 :: real) \<noteq> 0" by simp
  have h2: "length ?cs = length ?ts" by simp
  have h3: "0 \<le> max_speed_ms default_config" by (simp add: default_config_def)
  from velocity_per_step[OF h1 h2 h3] obtain vs where
    all: "compute_velocity default_config ?cs ?ts 25 = Inr vs
       \<and> length vs = Suc (length ?ts - 1)
       \<and> vs ! 0 = 0
       \<and> (\<forall>i. Suc i < length ?ts \<longrightarrow>
          (let d = norm_row (fst (?cs ! Suc i) - fst (?cs ! i), snd (?cs ! Suc i) - snd (?cs ! i));
               gap = ?ts ! Suc i - ?ts ! i;
               dt = (if gap = 0 then 1 / 25 else gap)
           in vs ! Suc i =
                (if d \<ge> max_distance_jump_m default_config
                    \<or> dt \<ge> max_frame_gap_seconds default_config then 0
                 else np_clip (d / dt) 0 (max_speed_ms default_config))
              \<and> 0 \<le> vs ! Suc i \<and> vs ! Suc i \<le> max_speed_ms default_config))" ..
  note r = all[THEN conjunct1]
  note l = all[THEN conjunct2, THEN conjunct1]
  note z = all[THEN conjunct2, THEN conjunct2, THEN conjunct1]
  note st = all[THEN conjunct2, THEN conjunct2, THEN conjunct2, rule_format]
  have i0: "Suc 0 < length ?ts" and i1: "Suc 1 < length ?ts" by simp_all
  have cfg: "max_distance_jump_m default_config = 10" "max_frame_gap_seconds default_config = 1 / 2"
    "max_speed_ms default_config = 25 / 2"
    by (simp_all add: default_config_def)
  have v1: "vs ! 1 = 25 / 2"
    using st[OF i0] unfolding cfg by (simp add: Let_def norm_row_def np_clip_def)
  have v2: "vs ! 2 = 0"
    using st[OF i1] unfolding cfg by (simp add: Let_def norm_row_def np_clip_def numeral_2_eq_2)
  have "length vs = 3" using l by simp
  with r z v1 v2 h3 show ?thesis by simp
qed

text \<open>
  Claim C3 as stated fails on the bounds. Two points one metre apart with timestamps
  exactly \<open>max_frame_gap_seconds = 0.5\<close> apart: neither the distance nor the gap exceeds
  its bound, so the claim gives \<open>1 / 0.5 = 2\<close> m/s, and the code gives 0.
\<close>

theorem velocity_at_gap_bound_counterexample:
  "compute_velocity default_config [(0, 0), (1, 0)] [0, 1 / 2] 25 = Inr [0, 0]
   \<and> norm_row (1 - 0, 0 - 0) = 1
   \<and> \<not> (1 > max_distance_jump_m default_config)
   \<and> \<not> (1 / 2 - 0 > max_frame_gap_seconds default_config)
   \<and> spec_step_velocity default_config 1 (1 / 2) = 2"
  by (simp add: compute_velocity_def np_diff_def np_diff_rows_def norm_row_def
      default_config_def np_clip_def spec_step_velocity_def)

section \<open>Properties of the pass validation\<close>

lemma sqrt_16: "sqrt 16 = 4"
  by (rule real_sqrt_unique) simp_all

lemma sqrt_25: "sqrt 25 = 5"
  by (rule real_sqrt_unique) simp_all

lemma completed_in_loop:
  "p \<in> set potentials \<Longrightarrow> ev \<in> set (snd (complete_one cfg players frm p)) \<Longrightarrow>
     ev \<in> set (snd (update_and_complete_passes cfg potentials players frm))"
  by (auto simp add: update_and_complete_passes_def Let_def)

text \<open>
  Claim C4. Take an active potential pass whose passer and receiver are both in the
  frame and further apart than the proximity threshold (a completed candidate). If the
  receiver's displacement from the start position equals \<open>pass_min_distance_m\<close>, is at most
  \<open>pass_max_distance_m\<close>, the duration is positive and at most \<open>pass_max_duration_s\<close> and
  the receiver's velocity is at least 0.5, then \<open>_validate_pass\<close> accepts and the loop of
  \<open>_update_and_complete_passes\<close> appends one PassEvent of this passer and receiver. If the
  displacement is strictly below \<open>pass_min_distance_m\<close>, \<open>_validate_pass\<close> rejects whatever
  the duration, and no event is appended.
\<close>

theorem pass_min_distance_inclusive:
  assumes "active p"
    and "players_dict players (passer p) = Some psr"
    and "players_dict players (receiver p) = Some rcv"
    and "sqrt ((xm_smooth psr - xm_smooth rcv) ^ 2 + (ym_smooth psr - ym_smooth rcv) ^ 2)
           > pass_proximity_threshold_m cfg"
  shows "(pass_displacement p rcv = pass_min_distance_m cfg
          \<and> pass_displacement p rcv \<le> pass_max_distance_m cfg
          \<and> 0 < timestamp psr - start_time p
          \<and> timestamp psr - start_time p \<le> pass_max_duration_s cfg
          \<and> 5 / 10 \<le> velocity rcv
        \<longrightarrow> validate_pass cfg p rcv dnow (timestamp psr - start_time p)
            \<and> (\<exists>ev. snd (complete_one cfg players frm p) = [ev]
                  \<and> passer_id ev = passer p \<and> receiver_id ev = receiver p
                  \<and> (\<forall>ps. p \<in> set ps \<longrightarrow>
                        ev \<in> set (snd (update_and_complete_passes cfg ps players frm)))))
       \<and> (pass_displacement p rcv < pass_min_distance_m cfg
        \<longrightarrow> \<not> validate_pass cfg p rcv dnow dur
            \<and> snd (complete_one cfg players frm p) = [])"
proof -
  have disp: "pass_displacement (p\<lparr>min_distance := m\<rparr>) rcv = pass_displacement p rcv" for m
    by (simp add: pass_displacement_def)
  have one: "pass_displacement p rcv = pass_min_distance_m cfg
          \<and> pass_displacement p rcv \<le> pass_max_distance_m cfg
          \<and> 0 < timestamp psr - start_time p
          \<and> timestamp psr - start_time p \<le> pass_max_duration_s cfg
          \<and> 5 / 10 \<le> velocity rcv
        \<longrightarrow> validate_pass cfg p rcv dnow (timestamp psr - start_time p)
            \<and> (\<exists>ev. snd (complete_one cfg players frm p) = [ev]
                  \<and> passer_id ev = passer p \<and> receiver_id ev = receiver p)"
    using assms by (auto simp add: complete_one_def validate_pass_def Let_def disp)
  have two: "pass_displacement p rcv < pass_min_distance_m cfg
        \<longrightarrow> \<not> validate_pass cfg p rcv dnow dur
            \<and> snd (complete_one cfg players frm p) = []"
    using assms by (auto simp add: complete_one_def validate_pass_def Let_def disp)
  have lift: "snd (complete_one cfg players frm p) = [ev] \<Longrightarrow> p \<in> set ps \<Longrightarrow>
                ev \<in> set (snd (update_and_complete_passes cfg ps players frm))" for ev ps
    using completed_in_loop[of p ps ev cfg players frm] by simp
  from one two lift show ?thesis by blast
qed

text \<open>The theorem with the default configuration at a receiver displaced by exactly 2
  metres (accepted, one event) and at one displaced by 1 metre (rejected).\<close>

theorem pass_min_distance_inclusive_witness:
  "active demo_potential
   \<and> players_dict (demo_players 2) (passer demo_potential) = Some passer_point
   \<and> players_dict (demo_players 2) (receiver demo_potential) = Some (receiver_point 2)
   \<and> sqrt ((xm_smooth passer_point - xm_smooth (receiver_point 2)) ^ 2
           + (ym_smooth passer_point - ym_smooth (receiver_point 2)) ^ 2)
       > pass_proximity_threshold_m default_config
   \<and> pass_displacement demo_potential (receiver_point 2) = pass_min_distance_m default_config
   \<and> validate_pass default_config demo_potential (receiver_point 2) 4 1
   \<and> (\<exists>ev. snd (complete_one default_config (demo_players 2) 25 demo_potential) = [ev]
         \<and> passer_id ev = 1 \<and> receiver_id ev = 2)
   \<and> pass_displacement demo_potential (receiver_point 1) < pass_min_distance_m default_config
   \<and> \<not> validate_pass default_config demo_potential (receiver_point 1) 5 1
   \<and> snd (complete_one default_config (demo_players 1) 25 demo_potential) = []"
proof -
  have act: "active demo_potential" by (simp add: demo_potential_def)
  have pl: "players_dict (demo_players x) (passer demo_potential) = Some passer_point"
           "players_dict (demo_players x) (receiver demo_potential) = Some (receiver_point x)"
    for x
    by (simp_all add: players_dict_def demo_players_def demo_potential_def)
  have far2: "sqrt ((xm_smooth passer_point - xm_smooth (receiver_point 2)) ^ 2
                + (ym_smooth passer_point - ym_smooth (receiver_point 2)) ^ 2)
              > pass_proximity_threshold_m default_config"
    by (simp add: passer_point_def receiver_point_def default_config_def sqrt_16)
  have far1: "sqrt ((xm_smooth passer_point - xm_smooth (receiver_point 1)) ^ 2
                + (ym_smooth passer_point - ym_smooth (receiver_point 1)) ^ 2)
              > pass_proximity_threshold_m default_config"
    by (simp add: passer_point_def receiver_point_def default_config_def sqrt_25)
  have d2: "pass_displacement demo_potential (receiver_point 2) = 2"
    by (simp add: pass_displacement_def demo_potential_def receiver_point_def)
  have d1: "pass_displacement demo_potential (receiver_point 1) = 1"
    by (simp add: pass_displacement_def demo_potential_def receiver_point_def)
  have cfg: "pass_min_distance_m default_config = 2" "pass_max_distance_m default_config = 40"
    "pass_max_duration_s default_config = 3"
    by (simp_all add: default_config_def)
  have pts: "timestamp passer_point - start_time demo_potential = 1"
    "velocity (receiver_point 2) = 1" "passer demo_potential = 1" "receiver demo_potential = 2"
    by (simp_all add: passer_point_def demo_potential_def receiver_point_def)
  from pass_min_distance_inclusive[OF act pl(1) pl(2) far2, of 4 25 1]
  have a: "validate_pass default_config demo_potential (receiver_point 2) 4 1
           \<and> (\<exists>ev. snd (complete_one default_config (demo_players 2) 25 demo_potential) = [ev]
                 \<and> passer_id ev = 1 \<and> receiver_id ev = 2)"
    unfolding d2 cfg pts by auto
  from pass_min_distance_inclusive[OF act pl(1) pl(2) far1, of 5 25 1]
  have b: "\<not> validate_pass default_config demo_potential (receiver_point 1) 5 1
           \<and> snd (complete_one default_config (demo_players 1) 25 demo_potential) = []"
    unfolding d1 cfg by simp
  from a b act pl far2 d2 d1 cfg show ?thesis by simp
qed

section \<open>Properties of the pressing deduplication\<close>

lemma dedup_loop_spec:
  "unique \<noteq> [] \<Longrightarrow>
     dedup_loop tw unique es = unique @ spec_dedup_from tw (last unique) es"
proof (induction es arbitrary: unique)
  case Nil
  then show ?case by simp
next
  case (Cons e es)
  have ne: "unique @ [e] \<noteq> []" by simp
  show ?case
    using Cons.IH[OF Cons.prems] Cons.IH[OF ne]
    by (simp add: Let_def diff_less_eq add.commute)
qed

lemma dedup_refines: "deduplicate_events events tw = spec_dedup tw events"
proof (cases "events = []")
  case True
  then show ?thesis by (simp add: deduplicate_events_def spec_dedup_def)
next
  case False
  then have "sort_key pr_timestamp events \<noteq> []"
    by (metis length_0_conv length_sort)
  then obtain e es where s: "sort_key pr_timestamp events = e # es"
    by (cases "sort_key pr_timestamp events") auto
  show ?thesis
    using False s by (simp add: deduplicate_events_def spec_dedup_def Let_def dedup_loop_spec)
qed

text \<open>
  Claim C5. With the window of 1 second, \<open>_deduplicate_events\<close> computes what the
  specification describes: the events sorted by timestamp, minus every event that has
  the defender and attacker of the most recently kept event and comes strictly less than
  1 second after it. So two events of one pair 0.5 s apart (in either order of arrival)
  collapse to the earlier one, and two events of one pair 1.5 s apart both remain.
\<close>

theorem dedup_sorted_window:
  "deduplicate_events events 1 = spec_dedup 1 events
   \<and> (defender_id e2 = defender_id e1 \<and> attacker_id e2 = attacker_id e1
        \<and> pr_timestamp e2 = pr_timestamp e1 + 1 / 2
      \<longrightarrow> deduplicate_events [e1, e2] 1 = [e1] \<and> deduplicate_events [e2, e1] 1 = [e1])
   \<and> (defender_id e2 = defender_id e1 \<and> attacker_id e2 = attacker_id e1
        \<and> pr_timestamp e2 = pr_timestamp e1 + 3 / 2
      \<longrightarrow> deduplicate_events [e1, e2] 1 = [e1, e2]
          \<and> deduplicate_events [e2, e1] 1 = [e1, e2])"
proof -
  have a: "deduplicate_events events 1 = spec_dedup 1 events" by (rule dedup_refines)
  have b: "defender_id e2 = defender_id e1 \<and> attacker_id e2 = attacker_id e1
        \<and> pr_timestamp e2 = pr_timestamp e1 + 1 / 2
      \<longrightarrow> deduplicate_events [e1, e2] 1 = [e1] \<and> deduplicate_events [e2, e1] 1 = [e1]"
    by (simp add: deduplicate_events_def Let_def)
  have c: "defender_id e2 = defender_id e1 \<and> attacker_id e2 = attacker_id e1
        \<and> pr_timestamp e2 = pr_timestamp e1 + 3 / 2
      \<longrightarrow> deduplicate_events [e1, e2] 1 = [e1, e2]
          \<and> deduplicate_events [e2, e1] 1 = [e1, e2]"
    by (simp add: deduplicate_events_def Let_def)
  from a b c show ?thesis by blast
qed

text \<open>The theorem at events of defender 7 on attacker 9 at the times 1, 1.5 and 2.5.\<close>

theorem dedup_sorted_window_witness:
  "defender_id (press_at (3 / 2)) = defender_id (press_at 1)
   \<and> attacker_id (press_at (3 / 2)) = attacker_id (press_at 1)
   \<and> pr_timestamp (press_at (3 / 2)) = pr_timestamp (press_at 1) + 1 / 2
   \<and> deduplicate_events [press_at 1, press_at (3 / 2)] 1 = [press_at 1]
   \<and> deduplicate_events [press_at (3 / 2), press_at 1] 1 = [press_at 1]
   \<and> pr_timestamp (press_at (5 / 2)) = pr_timestamp (press_at 1) + 3 / 2
   \<and> deduplicate_events [press_at 1, press_at (5 / 2)] 1 = [press_at 1, press_at (5 / 2)]
   \<and> deduplicate_events [press_at (5 / 2), press_at 1] 1 = [press_at 1, press_at (5 / 2)]
   \<and> deduplicate_events [press_at (5 / 2), press_at 1, press_at (3 / 2)] 1
       = spec_dedup 1 [press_at (5 / 2), press_at 1, press_at (3 / 2)]"
proof -
  have same: "defender_id (press_at s) = defender_id (press_at t)"
    "attacker_id (press_at s) = attacker_id (press_at t)" for s t
    by (simp_all add: press_at_def)
  have ts: "pr_timestamp (press_at (3 / 2)) = pr_timestamp (press_at 1) + 1 / 2"
    "pr_timestamp (press_at (5 / 2)) = pr_timestamp (press_at 1) + 3 / 2"
    by (simp_all add: press_at_def)
  from dedup_sorted_window[of "[press_at (5 / 2), press_at 1, press_at (3 / 2)]"
      "press_at (3 / 2)" "press_at 1"] same ts(1)
  have a: "deduplicate_events [press_at (5 / 2), press_at 1, press_at (3 / 2)] 1
             = spec_dedup 1 [press_at (5 / 2), press_at 1, press_at (3 / 2)]"
    and b: "deduplicate_events [press_at 1, press_at (3 / 2)] 1 = [press_at 1]
             \<and> deduplicate_events [press_at (3 / 2), press_at 1] 1 = [press_at 1]"
    by blast+
  from dedup_sorted_window[of "[]" "press_at (5 / 2)" "press_at 1"] same ts(2)
  have c: "deduplicate_events [press_at 1, press_at (5 / 2)] 1 = [press_at 1, press_at (5 / 2)]
         \<and> deduplicate_events [press_at (5 / 2), press_at 1] 1 = [press_at 1, press_at (5 / 2)]"
    by blast
  from a b c same ts show ?thesis by simp
qed

end
